theory Spec2Isabelle
  imports Main "HOL-Library.Code_Target_Nat"
begin

section \<open>Strings, bytes and the runtime's codecs\<close>

text \<open>
  A JavaScript string is a sequence of UTF-16 code units; a Buffer is a sequence of
  bytes. Both are lists of natural numbers here. \<open>js\<close> turns a literal of the source
  into its code units.
\<close>

type_synonym jsstring = "nat list"
type_synonym bytes = "nat list"

definition js :: "string \<Rightarrow> jsstring" where
  "js s = map of_char s"

definition startsWith :: "jsstring \<Rightarrow> jsstring \<Rightarrow> bool" where
  "startsWith s p = (take (length p) s = p)"

text \<open>\<open>xs.join(sep)\<close> on an array of strings.\<close>

fun join :: "jsstring \<Rightarrow> jsstring list \<Rightarrow> jsstring" where
  "join sep [] = []"
| "join sep [x] = x"
| "join sep (x # y # ys) = x @ sep @ join sep (y # ys)"

subsection \<open>UTF-8\<close>

definition is_high :: "nat \<Rightarrow> bool" where
  "is_high u = (0xD800 \<le> u \<and> u < 0xDC00)"

definition is_low :: "nat \<Rightarrow> bool" where
  "is_low u = (0xDC00 \<le> u \<and> u < 0xE000)"

text \<open>The UTF-8 bytes of one code point.\<close>

definition utf8_of_cp :: "nat \<Rightarrow> bytes" where
  "utf8_of_cp c =
     (if c < 0x80 then [c]
      else if c < 0x800 then [0xC0 + c div 64, 0x80 + c mod 64]
      else if c < 0x10000 then [0xE0 + c div 4096, 0x80 + (c div 64) mod 64, 0x80 + c mod 64]
      else [0xF0 + c div 262144, 0x80 + (c div 4096) mod 64,
            0x80 + (c div 64) mod 64, 0x80 + c mod 64])"

text \<open>
  \<open>Buffer.from(s, 'utf-8')\<close>: a surrogate pair is one code point, an unpaired
  surrogate is written as U+FFFD (bytes EF BF BD).
\<close>

fun utf8_encode :: "jsstring \<Rightarrow> bytes" where
  "utf8_encode [] = []"
| "utf8_encode [u] =
     (if is_high u \<or> is_low u then [0xEF, 0xBF, 0xBD] else utf8_of_cp u)"
| "utf8_encode (u # l # rest) =
     (if is_high u then
        (if is_low l
         then utf8_of_cp (0x10000 + (u - 0xD800) * 1024 + (l - 0xDC00)) @ utf8_encode rest
         else [0xEF, 0xBF, 0xBD] @ utf8_encode (l # rest))
      else if is_low u then [0xEF, 0xBF, 0xBD] @ utf8_encode (l # rest)
      else utf8_of_cp u @ utf8_encode (l # rest))"

text \<open>The UTF-16 code units of one code point.\<close>

definition utf16_of_cp :: "nat \<Rightarrow> jsstring" where
  "utf16_of_cp c =
     (if c < 0x10000 then [c]
      else [0xD800 + (c - 0x10000) div 1024, 0xDC00 + (c - 0x10000) mod 1024])"

text \<open>
  \<open>buf.toString('utf-8')\<close>, the decoder of the Encoding Standard: the state is the
  code point so far, the number of continuation bytes still needed and the range allowed
  for the next byte. A byte that cannot start or continue a sequence yields U+FFFD; a byte
  that breaks a sequence is then read again as the start of a new one.
\<close>

type_synonym utf8_state = "nat \<times> nat \<times> nat \<times> nat"

definition utf8_lead :: "nat \<Rightarrow> jsstring \<times> utf8_state" where
  "utf8_lead b =
     (if b < 0x80 then ([b], (0, 0, 0x80, 0xBF))
      else if 0xC2 \<le> b \<and> b \<le> 0xDF then ([], (b mod 32, 1, 0x80, 0xBF))
      else if 0xE0 \<le> b \<and> b \<le> 0xEF then
        ([], (b mod 16, 2, if b = 0xE0 then 0xA0 else 0x80, if b = 0xED then 0x9F else 0xBF))
      else if 0xF0 \<le> b \<and> b \<le> 0xF4 then
        ([], (b mod 8, 3, if b = 0xF0 then 0x90 else 0x80, if b = 0xF4 then 0x8F else 0xBF))
      else ([0xFFFD], (0, 0, 0x80, 0xBF)))"

fun utf8_run :: "utf8_state \<Rightarrow> bytes \<Rightarrow> jsstring" where
  "utf8_run (cp, needed, lo, hi) [] = (if needed \<noteq> 0 then [0xFFFD] else [])"
| "utf8_run (cp, needed, lo, hi) (b # bs) =
     (if needed = 0 then (case utf8_lead b of (out, st) \<Rightarrow> out @ utf8_run st bs)
      else if \<not> (lo \<le> b \<and> b \<le> hi)
        then 0xFFFD # (case utf8_lead b of (out, st) \<Rightarrow> out @ utf8_run st bs)
      else if needed = 1 then utf16_of_cp (cp * 64 + b mod 64) @ utf8_run (0, 0, 0x80, 0xBF) bs
      else utf8_run (cp * 64 + b mod 64, needed - 1, 0x80, 0xBF) bs)"

definition utf8_decode :: "bytes \<Rightarrow> jsstring" where
  "utf8_decode bs = utf8_run (0, 0, 0x80, 0xBF) bs"

subsection \<open>Base64\<close>

text \<open>The character of a 6-bit value, in the standard and in the URL-safe alphabet.\<close>

definition b64_char :: "nat \<Rightarrow> nat" where
  "b64_char n =
     (if n < 26 then 65 + n else if n < 52 then 71 + n else if n < 62 then n - 4
      else if n = 62 then 43 else 47)"

definition b64url_char :: "nat \<Rightarrow> nat" where
  "b64url_char n =
     (if n < 26 then 65 + n else if n < 52 then 71 + n else if n < 62 then n - 4
      else if n = 62 then 45 else 95)"

text \<open>The 6-bit groups of a byte sequence; the last group is filled with zero bits.\<close>

fun sextets :: "bytes \<Rightarrow> nat list" where
  "sextets [] = []"
| "sextets [a] = [a div 4, (a mod 4) * 16]"
| "sextets [a, b] = [a div 4, (a mod 4) * 16 + b div 16, (b mod 16) * 4]"
| "sextets (a # b # c # rest) =
     [a div 4, (a mod 4) * 16 + b div 16, (b mod 16) * 4 + c div 64, c mod 64] @ sextets rest"

text \<open>\<open>buf.toString('base64')\<close>: standard alphabet, padded with \<open>=\<close> to a multiple of four.\<close>

definition base64 :: "bytes \<Rightarrow> jsstring" where
  "base64 bs =
     map b64_char (sextets bs) @ replicate ((3 - length bs mod 3) mod 3) 61"

text \<open>\<open>buf.toString('base64url')\<close>: URL-safe alphabet, no padding.\<close>

definition base64url :: "bytes \<Rightarrow> jsstring" where
  "base64url bs = map b64url_char (sextets bs)"

text \<open>
  \<open>Buffer.from(s, 'base64')\<close>: both alphabets are accepted, decoding stops at the
  first \<open>=\<close>, any other character outside the alphabets is skipped, and a last group
  of two or three characters gives one or two bytes.
\<close>

definition b64_value :: "nat \<Rightarrow> nat option" where
  "b64_value c =
     (if 65 \<le> c \<and> c \<le> 90 then Some (c - 65)
      else if 97 \<le> c \<and> c \<le> 122 then Some (c - 71)
      else if 48 \<le> c \<and> c \<le> 57 then Some (c + 4)
      else if c = 43 \<or> c = 45 then Some 62
      else if c = 47 \<or> c = 95 then Some 63
      else None)"

fun unsextets :: "nat list \<Rightarrow> bytes" where
  "unsextets (p # q # r # s # rest) =
     [p * 4 + q div 16, (q mod 16) * 16 + r div 4, (r mod 4) * 64 + s] @ unsextets rest"
| "unsextets [p, q, r] = [p * 4 + q div 16, (q mod 16) * 16 + r div 4]"
| "unsextets [p, q] = [p * 4 + q div 16]"
| "unsextets _ = []"

definition base64_decode :: "jsstring \<Rightarrow> bytes" where
  "base64_decode s = unsextets (List.map_filter b64_value (takeWhile (\<lambda>c. c \<noteq> 61) s))"

text \<open>\<open>Buffer.from(data, 'base64').toString('utf-8')\<close>\<close>

definition decode_body :: "jsstring \<Rightarrow> jsstring" where
  "decode_body d = utf8_decode (base64_decode d)"

section \<open>Message composition\<close>

text \<open>\<open>/^[\x20-\x7E]*$/.test(subject)\<close>: every code unit is printable ASCII.\<close>

definition printable :: "nat \<Rightarrow> bool" where
  "printable c = (0x20 \<le> c \<and> c \<le> 0x7E)"

definition encodeSubject :: "jsstring \<Rightarrow> jsstring" where
  "encodeSubject subject =
     (if list_all printable subject then subject
      else js ''=?UTF-8?B?'' @ base64 (utf8_encode subject) @ js ''?='')"

text \<open>
  \<open>sendEmail\<close>. \<open>cc\<close> and \<open>bcc\<close> are optional; \<open>cc?.length\<close> holds when the list is
  there and not empty. \<open>composeEmail\<close> is the constant \<open>email\<close> of the source and
  \<open>send\<close> stands for the transport, \<open>gmail.users.messages.send\<close> with the raw message as
  its request body, whose answer is the result of \<open>sendEmail\<close>.
\<close>

definition messageParts ::
  "jsstring list \<Rightarrow> jsstring \<Rightarrow> jsstring \<Rightarrow> jsstring list option \<Rightarrow> jsstring list option
     \<Rightarrow> jsstring list" where
  "messageParts to subject body cc bcc =
     [js ''To: '' @ join (js '', '') to, js ''Subject: '' @ encodeSubject subject]
     @ (case cc of Some c \<Rightarrow> (if c \<noteq> [] then [js ''Cc: '' @ join (js '', '') c] else [])
        | None \<Rightarrow> [])
     @ (case bcc of Some b \<Rightarrow> (if b \<noteq> [] then [js ''Bcc: '' @ join (js '', '') b] else [])
        | None \<Rightarrow> [])
     @ [js ''Content-Type: text/plain; charset=utf-8'', [], body]"

definition composeEmail ::
  "jsstring list \<Rightarrow> jsstring \<Rightarrow> jsstring \<Rightarrow> jsstring list option \<Rightarrow> jsstring list option
     \<Rightarrow> jsstring" where
  "composeEmail to subject body cc bcc = join [13, 10] (messageParts to subject body cc bcc)"

definition sendEmail ::
  "(jsstring \<Rightarrow> 'id) \<Rightarrow> jsstring list \<Rightarrow> jsstring \<Rightarrow> jsstring \<Rightarrow> jsstring list option
     \<Rightarrow> jsstring list option \<Rightarrow> 'id" where
  "sendEmail send to subject body cc bcc =
     (let email = composeEmail to subject body cc bcc;
          encodedEmail = base64url (utf8_encode email)
      in send encodedEmail)"

subsection \<open>Reading an encoded word back\<close>

text \<open>
  The decoding the specification refers to: an encoded word \<open>=?UTF-8?B?text?=\<close> stands
  for the UTF-8 reading of the base64 decoding of \<open>text\<close>. A well-formed string has no
  unpaired surrogate (and its code units are 16 bits wide).
\<close>

definition decode_encoded_word :: "jsstring \<Rightarrow> jsstring option" where
  "decode_encoded_word w =
     (if startsWith w (js ''=?UTF-8?B?'') \<and> 12 \<le> length w \<and> drop (length w - 2) w = js ''?=''
      then Some (utf8_decode (base64_decode (take (length w - 12) (drop 10 w))))
      else None)"

fun wf_utf16 :: "jsstring \<Rightarrow> bool" where
  "wf_utf16 [] = True"
| "wf_utf16 [u] = (u < 0x10000 \<and> \<not> is_high u \<and> \<not> is_low u)"
| "wf_utf16 (u # l # rest) =
     (u < 0x10000 \<and>
      (if is_high u then is_low l \<and> wf_utf16 rest else \<not> is_low u \<and> wf_utf16 (l # rest)))"

definition scalar :: "nat \<Rightarrow> bool" where
  "scalar c = (c < 0x110000 \<and> \<not> (0xD800 \<le> c \<and> c < 0xE000))"

definition url_safe :: "nat \<Rightarrow> bool" where
  "url_safe c =
     ((65 \<le> c \<and> c \<le> 90) \<or> (97 \<le> c \<and> c \<le> 122) \<or> (48 \<le> c \<and> c \<le> 57) \<or> c = 45 \<or> c = 95)"

section \<open>Regular expressions of the source\<close>

text \<open>
  A regular expression is modelled by its matcher: given the text from some position on,
  the length of the match that starts there, if there is one. \<open>replace_re\<close> is
  \<open>String.prototype.replace\<close> with a global expression: matches are found from left
  to right, the search resumes after each match, and the counter skips the characters of
  the match just replaced.
\<close>

fun replace_re :: "(jsstring \<Rightarrow> nat option) \<Rightarrow> jsstring \<Rightarrow> nat \<Rightarrow> jsstring \<Rightarrow> jsstring" where
  "replace_re m r n [] = []"
| "replace_re m r n (c # cs) =
     (if 0 < n then replace_re m r (n - 1) cs
      else (case m (c # cs) of
              Some (Suc k) \<Rightarrow> r @ replace_re m r k cs
            | _ \<Rightarrow> c # replace_re m r 0 cs))"

text \<open>
  The flag \<open>i\<close> without \<open>u\<close> compares characters after \<open>toUpperCase\<close>, and never lets a
  character outside ASCII match one inside: only the ASCII letters are folded.
\<close>

definition lower :: "nat \<Rightarrow> nat" where
  "lower c = (if 65 \<le> c \<and> c \<le> 90 then c + 32 else c)"

definition ci_prefix :: "jsstring \<Rightarrow> jsstring \<Rightarrow> bool" where
  "ci_prefix p s = (map lower (take (length p) s) = p)"

text \<open>The position of the first character satisfying \<open>P\<close>, and of the first place where \<open>P\<close> holds of the rest.\<close>

fun find_char :: "(nat \<Rightarrow> bool) \<Rightarrow> jsstring \<Rightarrow> nat option" where
  "find_char P [] = None"
| "find_char P (c # cs) = (if P c then Some 0 else map_option Suc (find_char P cs))"

fun find_at :: "(jsstring \<Rightarrow> bool) \<Rightarrow> jsstring \<Rightarrow> nat option" where
  "find_at P [] = (if P [] then Some 0 else None)"
| "find_at P (c # cs) = (if P (c # cs) then Some 0 else map_option Suc (find_at P cs))"

text \<open>
  \<open>/<script[^>]*>[\s\S]*?<\/script>/gi\<close> and the same for \<open>style\<close>: the opening
  tag runs to the first \<open>>\<close>, the block to the first closing tag after it.
\<close>

definition match_block :: "jsstring \<Rightarrow> jsstring \<Rightarrow> jsstring \<Rightarrow> nat option" where
  "match_block opn cls s =
     (if ci_prefix opn s then
        (case find_char (\<lambda>c. c = 62) (drop (length opn) s) of
           None \<Rightarrow> None
         | Some i \<Rightarrow>
             (case find_at (ci_prefix cls) (drop (length opn + i + 1) s) of
                None \<Rightarrow> None
              | Some j \<Rightarrow> Some (length opn + i + 1 + j + length cls)))
      else None)"

text \<open>\<open>/<[^>]+>/g\<close>\<close>

definition match_tag :: "jsstring \<Rightarrow> nat option" where
  "match_tag s =
     (case s of
        c # d # rest \<Rightarrow>
          (if c = 60 \<and> d \<noteq> 62
           then map_option (\<lambda>i. i + 3) (find_char (\<lambda>x. x = 62) rest)
           else None)
      | _ \<Rightarrow> None)"

text \<open>A literal pattern such as \<open>/&amp;/g\<close>.\<close>

definition match_lit :: "jsstring \<Rightarrow> jsstring \<Rightarrow> nat option" where
  "match_lit p s = (if startsWith s p then Some (length p) else None)"

text \<open>The class \<open>\s\<close>: the white space and line terminators of ECMAScript.\<close>

definition is_space :: "nat \<Rightarrow> bool" where
  "is_space c =
     (c = 9 \<or> c = 10 \<or> c = 11 \<or> c = 12 \<or> c = 13 \<or> c = 32 \<or> c = 0xA0 \<or> c = 0x1680
      \<or> (0x2000 \<le> c \<and> c \<le> 0x200A) \<or> c = 0x2028 \<or> c = 0x2029 \<or> c = 0x202F
      \<or> c = 0x205F \<or> c = 0x3000 \<or> c = 0xFEFF)"

text \<open>\<open>/\s+/g\<close>\<close>

definition match_spaces :: "jsstring \<Rightarrow> nat option" where
  "match_spaces s = (let n = length (takeWhile is_space s) in if 0 < n then Some n else None)"

definition trim :: "jsstring \<Rightarrow> jsstring" where
  "trim s = rev (dropWhile is_space (rev (dropWhile is_space s)))"

section \<open>Message extraction\<close>

text \<open>
  A part of a message as the provider returns it: \<open>mimeType\<close>, \<open>body.data\<close> and
  \<open>parts\<close> may each be absent (\<open>None\<close>). \<open>bodyData\<close> is \<open>payload.body?.data\<close>.
\<close>

datatype MimeNode =
  MimeNode (mimeType: "jsstring option") (bodyData: "jsstring option")
    (parts: "MimeNode list option")

text \<open>\<open>x.mimeType === t && x.body?.data\<close>: the data is there and is not the empty string.\<close>

definition is_leaf :: "jsstring \<Rightarrow> MimeNode \<Rightarrow> bool" where
  "is_leaf t x = (mimeType x = Some t \<and> (case bodyData x of Some d \<Rightarrow> d \<noteq> [] | None \<Rightarrow> False))"

definition leaf_text :: "MimeNode \<Rightarrow> jsstring" where
  "leaf_text x = (case bodyData x of Some d \<Rightarrow> decode_body d | None \<Rightarrow> [])"

text \<open>\<open>part.mimeType?.startsWith('multipart/')\<close>\<close>

definition is_multipart :: "MimeNode \<Rightarrow> bool" where
  "is_multipart x =
     (case mimeType x of Some t \<Rightarrow> startsWith t (js ''multipart/'') | None \<Rightarrow> False)"

text \<open>The chain of replacements that turns HTML into text.\<close>

definition replace :: "(jsstring \<Rightarrow> nat option) \<Rightarrow> jsstring \<Rightarrow> jsstring \<Rightarrow> jsstring" where
  "replace m r s = replace_re m r 0 s"

definition html_to_text :: "jsstring \<Rightarrow> jsstring" where
  "html_to_text html =
     (let s1 = replace (match_block (js ''<script'') (js ''</script>'')) [] html;
          s2 = replace (match_block (js ''<style'') (js ''</style>'')) [] s1;
          s3 = replace match_tag (js '' '') s2;
          s4 = replace (match_lit (js ''&nbsp;'')) (js '' '') s3;
          s5 = replace (match_lit (js ''&amp;'')) (js ''&'') s4;
          s6 = replace (match_lit (js ''&lt;'')) (js ''<'') s5;
          s7 = replace (match_lit (js ''&gt;'')) (js ''>'') s6;
          s8 = replace (match_lit (js ''&quot;'')) [34] s7;
          s9 = replace (match_lit (js ''&#39;'')) [39] s8;
          s10 = replace match_spaces (js '' '') s9
      in trim s10)"

text \<open>
  \<open>extractPlainTextBody\<close>. \<open>plain_loop\<close> is the first loop over \<open>payload.parts\<close> and
  \<open>html_loop\<close> the second; each gives \<open>Some\<close> result when it returns from the function
  and \<open>None\<close> when it runs to its end.
\<close>

fun html_loop :: "MimeNode list \<Rightarrow> jsstring option" where
  "html_loop [] = None"
| "html_loop (part # rest) =
     (if is_leaf (js ''text/html'') part then Some (html_to_text (leaf_text part))
      else html_loop rest)"

fun extractPlainTextBody_node :: "MimeNode \<Rightarrow> jsstring"
  and plain_loop :: "MimeNode list \<Rightarrow> jsstring option" where
  "extractPlainTextBody_node (MimeNode mt bd ps) =
     (if is_leaf (js ''text/plain'') (MimeNode mt bd ps) then leaf_text (MimeNode mt bd ps)
      else (case ps of
              None \<Rightarrow> []
            | Some pl \<Rightarrow>
                (case plain_loop pl of
                   Some r \<Rightarrow> r
                 | None \<Rightarrow> (case html_loop pl of Some r \<Rightarrow> r | None \<Rightarrow> []))))"
| "plain_loop [] = None"
| "plain_loop (part # rest) =
     (if is_leaf (js ''text/plain'') part then Some (leaf_text part)
      else if is_multipart part then
        (let nested = extractPlainTextBody_node part
         in if nested \<noteq> [] then Some nested else plain_loop rest)
      else plain_loop rest)"

text \<open>The payload itself may be null or undefined.\<close>

definition extractPlainTextBody :: "MimeNode option \<Rightarrow> jsstring" where
  "extractPlainTextBody payload =
     (case payload of None \<Rightarrow> [] | Some p \<Rightarrow> extractPlainTextBody_node p)"

subsection \<open>The text leaves of a tree\<close>

text \<open>
  All nodes of a tree, in document order (a node before its parts, parts from first to
  last), and the words of the specification about them: a text leaf is a node of type
  \<open>text/plain\<close> or \<open>text/html\<close> that carries payload data.
\<close>

fun nodes :: "MimeNode \<Rightarrow> MimeNode list" where
  "nodes (MimeNode mt bd ps) =
     MimeNode mt bd ps # (case ps of None \<Rightarrow> [] | Some pl \<Rightarrow> concat (map nodes pl))"

definition is_text_leaf :: "MimeNode \<Rightarrow> bool" where
  "is_text_leaf x = (is_leaf (js ''text/plain'') x \<or> is_leaf (js ''text/html'') x)"

definition has_text_leaf :: "MimeNode \<Rightarrow> bool" where
  "has_text_leaf t = list_ex is_text_leaf (nodes t)"

text \<open>
  The shape the data model promises: below the root, only \<open>multipart/*\<close> nodes have
  parts.
\<close>

fun wf_parts :: "MimeNode \<Rightarrow> bool" where
  "wf_parts (MimeNode mt bd ps) =
     (case ps of
        None \<Rightarrow> True
      | Some pl \<Rightarrow> list_all (\<lambda>c. (parts c \<noteq> None \<longrightarrow> is_multipart c) \<and> wf_parts c) pl)"

text \<open>Every text leaf of the tree yields some text: no leaf decodes or converts to nothing.\<close>

definition texts_nonempty :: "MimeNode \<Rightarrow> bool" where
  "texts_nonempty t =
     list_all (\<lambda>x. (is_leaf (js ''text/plain'') x \<longrightarrow> leaf_text x \<noteq> [])
                  \<and> (is_leaf (js ''text/html'') x \<longrightarrow> html_to_text (leaf_text x) \<noteq> []))
       (nodes t)"

section \<open>Link extraction\<close>

subsection \<open>URLs\<close>

text \<open>
  What the source reads of a parsed \<open>URL\<close>: \<open>hostname\<close>, \<open>pathname\<close> and
  \<open>searchParams\<close>, the decoded name/value pairs of the query in their order.
\<close>

record URL =
  hostname :: jsstring
  pathname :: jsstring
  searchParams :: "(jsstring \<times> jsstring) list"

text \<open>\<open>parsed.searchParams.get(name)\<close>: the value of the first pair with that name, or null.\<close>

definition searchParams_get :: "URL \<Rightarrow> jsstring \<Rightarrow> jsstring option" where
  "searchParams_get u name = map_of (searchParams u) name"

text \<open>\<open>s.includes(sub)\<close>\<close>

definition str_includes :: "jsstring \<Rightarrow> jsstring \<Rightarrow> bool" where
  "str_includes s sub = (find_at (\<lambda>r. startsWith r sub) s \<noteq> None)"

definition hex_value :: "nat \<Rightarrow> nat option" where
  "hex_value c =
     (if 48 \<le> c \<and> c \<le> 57 then Some (c - 48)
      else if 65 \<le> c \<and> c \<le> 70 then Some (c - 55)
      else if 97 \<le> c \<and> c \<le> 102 then Some (c - 87)
      else None)"

text \<open>
  \<open>decodeURIComponent\<close>, after ECMAScript's \<open>Decode\<close>; \<open>None\<close> is a thrown
  \<open>URIError\<close>. The string is first cut into plain code units and escapes \<open>%XX\<close>; a
  \<open>%\<close> without two hexadecimal digits is an error.
\<close>

datatype uri_token = Lit nat | Pct nat

fun uri_tokens :: "jsstring \<Rightarrow> uri_token list option" where
  "uri_tokens [] = Some []"
| "uri_tokens (c # cs) =
     (if c = 37 then
        (case cs of
           h # l # rest \<Rightarrow>
             (case (hex_value h, hex_value l) of
                (Some a, Some b) \<Rightarrow> map_option (\<lambda>ts. Pct (a * 16 + b) # ts) (uri_tokens rest)
              | _ \<Rightarrow> None)
         | _ \<Rightarrow> None)
      else map_option (\<lambda>ts. Lit c # ts) (uri_tokens cs))"

definition is_cont :: "nat \<Rightarrow> bool" where
  "is_cont b = (0x80 \<le> b \<and> b < 0xC0)"

text \<open>
  An escape below 0x80 is that character. A larger one must start a well-formed UTF-8
  sequence made of escapes only: no overlong form, no surrogate, nothing above U+10FFFF.
\<close>

fun uri_decode_tokens :: "uri_token list \<Rightarrow> jsstring option" where
  "uri_decode_tokens [] = Some []"
| "uri_decode_tokens (Lit c # ts) = map_option (\<lambda>r. c # r) (uri_decode_tokens ts)"
| "uri_decode_tokens (Pct b # ts) =
     (if b < 0x80 then map_option (\<lambda>r. b # r) (uri_decode_tokens ts)
      else if 0xC0 \<le> b \<and> b < 0xE0 then
        (case ts of
           Pct b1 # rest \<Rightarrow>
             (let v = (b mod 32) * 64 + b1 mod 64
              in if is_cont b1 \<and> 0x80 \<le> v
                 then map_option (\<lambda>r. utf16_of_cp v @ r) (uri_decode_tokens rest) else None)
         | _ \<Rightarrow> None)
      else if 0xE0 \<le> b \<and> b < 0xF0 then
        (case ts of
           Pct b1 # Pct b2 # rest \<Rightarrow>
             (let v = ((b mod 16) * 64 + b1 mod 64) * 64 + b2 mod 64
              in if is_cont b1 \<and> is_cont b2 \<and> 0x800 \<le> v \<and> \<not> (0xD800 \<le> v \<and> v < 0xE000)
                 then map_option (\<lambda>r. utf16_of_cp v @ r) (uri_decode_tokens rest) else None)
         | _ \<Rightarrow> None)
      else if 0xF0 \<le> b \<and> b < 0xF8 then
        (case ts of
           Pct b1 # Pct b2 # Pct b3 # rest \<Rightarrow>
             (let v = (((b mod 8) * 64 + b1 mod 64) * 64 + b2 mod 64) * 64 + b3 mod 64
              in if is_cont b1 \<and> is_cont b2 \<and> is_cont b3 \<and> 0x10000 \<le> v \<and> v < 0x110000
                 then map_option (\<lambda>r. utf16_of_cp v @ r) (uri_decode_tokens rest) else None)
         | _ \<Rightarrow> None)
      else None)"

definition decodeURIComponent :: "jsstring \<Rightarrow> jsstring option" where
  "decodeURIComponent s =
     (case uri_tokens s of None \<Rightarrow> None | Some ts \<Rightarrow> uri_decode_tokens ts)"

subsection \<open>cleanTrackingUrl\<close>

text \<open>
  The \<open>URL\<close> constructor belongs to the runtime; the functions below take it as the
  parameter \<open>new_URL\<close>, with \<open>None\<close> for the \<open>TypeError\<close> it throws on a string it
  cannot parse. \<open>param_loop\<close> is the loop over the parameter names: \<open>Some r\<close> when it
  returns \<open>decodeURIComponent(destUrl)\<close> (\<open>r\<close> is \<open>None\<close> when that throws), \<open>None\<close>
  when it runs to its end.
\<close>

definition is_http :: "jsstring \<Rightarrow> bool" where
  "is_http s = (startsWith s (js ''http://'') \<or> startsWith s (js ''https://''))"

definition tracking_params :: "jsstring list" where
  "tracking_params =
     [js ''url'', js ''u'', js ''redirect'', js ''destination'', js ''target'', js ''link'']"

fun param_loop :: "URL \<Rightarrow> jsstring list \<Rightarrow> jsstring option option" where
  "param_loop parsed [] = None"
| "param_loop parsed (param # rest) =
     (case searchParams_get parsed param of
        Some destUrl \<Rightarrow>
          (if destUrl \<noteq> [] \<and> is_http destUrl then Some (decodeURIComponent destUrl)
           else param_loop parsed rest)
      | None \<Rightarrow> param_loop parsed rest)"

definition trackingDomains :: "jsstring list" where
  "trackingDomains =
     [js ''click.'', js ''track.'', js ''trk.'', js ''email.'', js ''links.'',
      js ''list-manage.com'', js ''mailchimp.com'', js ''beehiiv.com/clicks'',
      js ''convertkit.com'', js ''substack.com/redirect'']"

definition isTrackingOnly :: "URL \<Rightarrow> bool" where
  "isTrackingOnly parsed =
     list_ex (\<lambda>domain. str_includes (hostname parsed) domain \<or> str_includes (pathname parsed) domain)
       trackingDomains"

text \<open>The result \<open>None\<close> is the \<open>null\<close> of the \<open>catch\<close> branch.\<close>

definition cleanTrackingUrl :: "(jsstring \<Rightarrow> URL option) \<Rightarrow> jsstring \<Rightarrow> jsstring option" where
  "cleanTrackingUrl new_URL url =
     (case new_URL url of
        None \<Rightarrow> None
      | Some parsed \<Rightarrow>
          (case param_loop parsed tracking_params of
             Some r \<Rightarrow> r
           | None \<Rightarrow> (let tracking = isTrackingOnly parsed in Some url)))"

subsection \<open>extractLinksFromPayload\<close>

text \<open>
  \<open>/href=["']([^"']+)["']/gi\<close> at the start of a text: the captured group and the length
  of the match. The group is the longest run without a quote, it is not empty and a quote
  follows it.
\<close>

definition is_quote :: "nat \<Rightarrow> bool" where
  "is_quote c = (c = 34 \<or> c = 39)"

definition match_href :: "jsstring \<Rightarrow> (jsstring \<times> nat) option" where
  "match_href s =
     (if ci_prefix (js ''href='') s then
        (case drop 5 s of
           [] \<Rightarrow> None
         | q # rest \<Rightarrow>
             (let url = takeWhile (\<lambda>c. \<not> is_quote c) rest
              in if is_quote q \<and> url \<noteq> [] \<and> length url < length rest
                 then Some (url, length url + 7) else None))
      else None)"

text \<open>The successive results of \<open>hrefRegex.exec(html)\<close>: the groups of all matches, left to right.\<close>

fun href_matches :: "nat \<Rightarrow> jsstring \<Rightarrow> jsstring list" where
  "href_matches n [] = []"
| "href_matches n (c # cs) =
     (if 0 < n then href_matches (n - 1) cs
      else (case match_href (c # cs) of
              Some (url, Suc k) \<Rightarrow> url # href_matches k cs
            | _ \<Rightarrow> href_matches 0 cs))"

text \<open>
  The set \<open>links\<close> keeps insertion order: it is a list without repetition, and
  \<open>links.add(x)\<close> appends \<open>x\<close> unless it is there.
\<close>

definition set_add :: "jsstring list \<Rightarrow> jsstring \<Rightarrow> jsstring list" where
  "set_add links x = (if x \<in> set links then links else links @ [x])"

text \<open>The body of the \<open>while\<close> loop of \<open>extractFromHtml\<close>, for one match.\<close>

definition href_step ::
  "(jsstring \<Rightarrow> URL option) \<Rightarrow> jsstring \<Rightarrow> jsstring list \<Rightarrow> jsstring list" where
  "href_step new_URL url links =
     (if url \<noteq> [] \<and> \<not> startsWith url (js ''mailto:'') \<and> \<not> startsWith url (js ''javascript:'')
         \<and> \<not> startsWith url (js ''#'') \<and> is_http url
      then (case cleanTrackingUrl new_URL url of
              Some cleanUrl \<Rightarrow> (if cleanUrl \<noteq> [] then set_add links cleanUrl else links)
            | None \<Rightarrow> links)
      else links)"

definition extractFromHtml :: "(jsstring \<Rightarrow> URL option) \<Rightarrow> jsstring list \<Rightarrow> jsstring \<Rightarrow> jsstring list" where
  "extractFromHtml new_URL links html = fold (href_step new_URL) (href_matches 0 html) links"

fun extractLinksFromPayload_node :: "(jsstring \<Rightarrow> URL option) \<Rightarrow> MimeNode \<Rightarrow> jsstring list"
  and links_loop :: "(jsstring \<Rightarrow> URL option) \<Rightarrow> MimeNode list \<Rightarrow> jsstring list \<Rightarrow> jsstring list" where
  "extractLinksFromPayload_node new_URL (MimeNode mt bd ps) =
     (let links = (if is_leaf (js ''text/html'') (MimeNode mt bd ps)
                   then extractFromHtml new_URL [] (leaf_text (MimeNode mt bd ps)) else [])
      in (case ps of None \<Rightarrow> links | Some pl \<Rightarrow> links_loop new_URL pl links))"
| "links_loop new_URL [] links = links"
| "links_loop new_URL (part # rest) links =
     (let links1 = (if is_leaf (js ''text/html'') part
                    then extractFromHtml new_URL links (leaf_text part) else links);
          links2 = (if is_multipart part
                    then fold (\<lambda>link ls. set_add ls link) (extractLinksFromPayload_node new_URL part) links1
                    else links1)
      in links_loop new_URL rest links2)"

definition extractLinksFromPayload :: "(jsstring \<Rightarrow> URL option) \<Rightarrow> MimeNode option \<Rightarrow> jsstring list" where
  "extractLinksFromPayload new_URL payload =
     (case payload of None \<Rightarrow> [] | Some p \<Rightarrow> extractLinksFromPayload_node new_URL p)"

subsection \<open>A URL constructor for the examples\<close>

text \<open>
  The examples below need a concrete constructor. \<open>simple_URL\<close> reads URLs of the plain
  form \<open>http(s)://host/path?query#fragment\<close> whose host is made of lower-case letters,
  digits, dots and hyphens, and rejects every other string; on the URLs of the examples it
  agrees with the runtime's \<open>URL\<close>. The query is read as \<open>URLSearchParams\<close> reads it:
  pairs separated by \<open>&\<close>, name and value separated by the first \<open>=\<close>, \<open>+\<close> for a
  space, escapes \<open>%XX\<close> replaced by their bytes, the bytes read as UTF-8.
\<close>

fun percent_decode :: "bytes \<Rightarrow> bytes" where
  "percent_decode [] = []"
| "percent_decode (c # cs) =
     (if c = 37 then
        (case cs of
           h # l # rest \<Rightarrow>
             (case (hex_value h, hex_value l) of
                (Some a, Some b) \<Rightarrow> (a * 16 + b) # percent_decode rest
              | _ \<Rightarrow> c # percent_decode cs)
         | _ \<Rightarrow> c # percent_decode cs)
      else c # percent_decode cs)"

definition form_decode :: "jsstring \<Rightarrow> jsstring" where
  "form_decode s =
     utf8_decode (percent_decode (utf8_encode (map (\<lambda>c. if c = 43 then 32 else c) s)))"

fun split_on :: "nat \<Rightarrow> jsstring \<Rightarrow> jsstring list" where
  "split_on sep [] = [[]]"
| "split_on sep (c # cs) =
     (if c = sep then [] # split_on sep cs
      else (case split_on sep cs of p # ps \<Rightarrow> (c # p) # ps | [] \<Rightarrow> [[c]]))"

definition parse_query :: "jsstring \<Rightarrow> (jsstring \<times> jsstring) list" where
  "parse_query q =
     map (\<lambda>piece. (form_decode (takeWhile (\<lambda>c. c \<noteq> 61) piece),
                    form_decode (drop 1 (dropWhile (\<lambda>c. c \<noteq> 61) piece))))
       (filter (\<lambda>piece. piece \<noteq> []) (split_on 38 q))"

definition host_char :: "nat \<Rightarrow> bool" where
  "host_char c = ((97 \<le> c \<and> c \<le> 122) \<or> (48 \<le> c \<and> c \<le> 57) \<or> c = 45 \<or> c = 46)"

definition simple_URL :: "jsstring \<Rightarrow> URL option" where
  "simple_URL s =
     (if is_http s then
        (let rest = (if startsWith s (js ''https://'') then drop 8 s else drop 7 s);
             host = takeWhile (\<lambda>c. c \<noteq> 47 \<and> c \<noteq> 63 \<and> c \<noteq> 35) rest;
             after = drop (length host) rest;
             path = takeWhile (\<lambda>c. c \<noteq> 63 \<and> c \<noteq> 35) after;
             query = takeWhile (\<lambda>c. c \<noteq> 35) (drop 1 (drop (length path) after))
         in if host \<noteq> [] \<and> list_all host_char host
            then Some \<lparr>hostname = host, pathname = (if path = [] then js ''/'' else path),
                       searchParams = parse_query query\<rparr>
            else None)
      else None)"

subsection \<open>The links of a tree, in the words of the specification\<close>

text \<open>
  The link one \<open>href\<close> value contributes, if any; the links of one HTML text, in the
  order of their anchors; and the links of a node, which are those of its HTML when it is
  an HTML leaf.
\<close>

definition link_of :: "(jsstring \<Rightarrow> URL option) \<Rightarrow> jsstring \<Rightarrow> jsstring option" where
  "link_of new_URL url =
     (if url \<noteq> [] \<and> \<not> startsWith url (js ''mailto:'') \<and> \<not> startsWith url (js ''javascript:'')
         \<and> \<not> startsWith url (js ''#'') \<and> is_http url
      then (case cleanTrackingUrl new_URL url of
              Some cleanUrl \<Rightarrow> (if cleanUrl \<noteq> [] then Some cleanUrl else None)
            | None \<Rightarrow> None)
      else None)"

definition html_links :: "(jsstring \<Rightarrow> URL option) \<Rightarrow> jsstring \<Rightarrow> jsstring list" where
  "html_links new_URL html = List.map_filter (link_of new_URL) (href_matches 0 html)"

definition node_links :: "(jsstring \<Rightarrow> URL option) \<Rightarrow> MimeNode \<Rightarrow> jsstring list" where
  "node_links new_URL x =
     (if is_leaf (js ''text/html'') x then html_links new_URL (leaf_text x) else [])"

text \<open>Whether a parameter of the query holds an http(s) destination.\<close>

definition holds_destination :: "URL \<Rightarrow> jsstring \<Rightarrow> bool" where
  "holds_destination parsed param =
     (case searchParams_get parsed param of Some d \<Rightarrow> is_http d | None \<Rightarrow> False)"

subsection \<open>getMessageLight\<close>

text \<open>
  The two fields of the light message that are computed from the payload. The other
  fields are copied from the message and its headers.
\<close>

record LightMessage =
  body :: jsstring
  links :: "jsstring list"

definition getMessageLight :: "(jsstring \<Rightarrow> URL option) \<Rightarrow> MimeNode option \<Rightarrow> LightMessage" where
  "getMessageLight new_URL payload =
     (let found = extractLinksFromPayload new_URL payload;
          text = extractPlainTextBody payload
      in \<lparr>body = text, links = found\<rparr>)"

section \<open>Accounts\<close>

text \<open>
  Modelled from the spec: the account manager (\<open>account-manager.js\<close>) is not among the
  sources; the tool handlers only call it. After section 4.1 of the specification, the
  store holds one record per mailbox address, compared without regard to case, and an
  optional default address; \<open>exists\<close> is a query, and \<open>add\<close> fails with \<open>ConflictError\<close>
  when a record exists, and otherwise obtains a credential from the consent flow (the
  parameter \<open>authorize\<close>, which may fail), creates the record with the current time and
  leaves the default pointer alone.
\<close>

datatype error = ConflictError | AuthorizationError

record AccountRecord =
  credential :: jsstring
  addedAt :: nat
  lastUsed :: nat

record AccountStore =
  accounts :: "(jsstring \<times> AccountRecord) list"
  defaultAccount :: "jsstring option"

definition normalize :: "jsstring \<Rightarrow> jsstring" where
  "normalize address = map lower address"

definition accountExists :: "AccountStore \<Rightarrow> jsstring \<Rightarrow> bool" where
  "accountExists store address = (map_of (accounts store) (normalize address) \<noteq> None)"

definition addAccount ::
  "(jsstring \<Rightarrow> error + jsstring) \<Rightarrow> nat \<Rightarrow> AccountStore \<Rightarrow> jsstring \<Rightarrow> error + AccountStore" where
  "addAccount authorize now store address =
     (if accountExists store address then Inl ConflictError
      else (case authorize address of
              Inl e \<Rightarrow> Inl e
            | Inr cred \<Rightarrow>
                Inr (store\<lparr>accounts := accounts store
                       @ [(normalize address, \<lparr>credential = cred, addedAt = now, lastUsed = now\<rparr>)]\<rparr>)))"

text \<open>
  The handler of the tool \<open>add_account\<close>, from the source. Its result is the text of the
  content shown to the caller and the flag \<open>isError\<close>, which the source sets only in its
  \<open>catch\<close> branch; the store is passed through. \<open>describe\<close> gives the message of a
  thrown error.
\<close>

record ToolResult =
  content_text :: jsstring
  isError :: bool

definition add_account ::
  "(error \<Rightarrow> jsstring) \<Rightarrow> (jsstring \<Rightarrow> error + jsstring) \<Rightarrow> nat \<Rightarrow> AccountStore \<Rightarrow> jsstring
     \<Rightarrow> ToolResult \<times> AccountStore" where
  "add_account describe authorize now store email =
     (if accountExists store email
      then (\<lparr>content_text = js ''Account '' @ email @ js '' already exists.'', isError = False\<rparr>,
            store)
      else (case addAccount authorize now store email of
              Inr store' \<Rightarrow>
                (\<lparr>content_text = js ''Account '' @ email
                     @ js '' added successfully. You may need to authenticate in your browser.'',
                  isError = False\<rparr>, store')
            | Inl e \<Rightarrow> (\<lparr>content_text = js ''Error: '' @ describe e, isError = True\<rparr>, store)))"

section \<open>Extraction on an untyped payload\<close>

text \<open>
  The source types the payload as \<open>any\<close>. Here every place that holds an object may hold
  \<open>null\<close> or \<open>undefined\<close> instead: the payload itself and each element of a \<open>parts\<close> array.
  Reading a property of such a value throws a \<open>TypeError\<close>, which the extraction functions
  do not catch; \<open>Inl\<close> is the thrown error. The fields of an object are as in \<open>MimeNode\<close>.
\<close>

datatype anyval =
  Nullish
  | Object "jsstring option" "jsstring option" "anyval list option"

datatype js_error = TypeError

fun html_loop_any :: "anyval list \<Rightarrow> js_error + jsstring option" where
  "html_loop_any [] = Inr None"
| "html_loop_any (Nullish # rest) = Inl TypeError"
| "html_loop_any (Object mt bd ps # rest) =
     (if is_leaf (js ''text/html'') (MimeNode mt bd None)
      then Inr (Some (html_to_text (leaf_text (MimeNode mt bd None))))
      else html_loop_any rest)"

fun extractPlainTextBody_any :: "anyval \<Rightarrow> js_error + jsstring"
  and plain_loop_any :: "anyval list \<Rightarrow> js_error + jsstring option" where
  "extractPlainTextBody_any Nullish = Inr []"
| "extractPlainTextBody_any (Object mt bd ps) =
     (if is_leaf (js ''text/plain'') (MimeNode mt bd None) then Inr (leaf_text (MimeNode mt bd None))
      else (case ps of
              None \<Rightarrow> Inr []
            | Some pl \<Rightarrow>
                (case plain_loop_any pl of
                   Inl e \<Rightarrow> Inl e
                 | Inr (Some r) \<Rightarrow> Inr r
                 | Inr None \<Rightarrow>
                     (case html_loop_any pl of
                        Inl e \<Rightarrow> Inl e
                      | Inr (Some r) \<Rightarrow> Inr r
                      | Inr None \<Rightarrow> Inr []))))"
| "plain_loop_any [] = Inr None"
| "plain_loop_any (Nullish # rest) = Inl TypeError"
| "plain_loop_any (Object mt bd ps # rest) =
     (if is_leaf (js ''text/plain'') (MimeNode mt bd None)
      then Inr (Some (leaf_text (MimeNode mt bd None)))
      else if is_multipart (MimeNode mt bd None) then
        (case extractPlainTextBody_any (Object mt bd ps) of
           Inl e \<Rightarrow> Inl e
         | Inr nested \<Rightarrow> (if nested \<noteq> [] then Inr (Some nested) else plain_loop_any rest))
      else plain_loop_any rest)"

fun extractLinksFromPayload_any :: "(jsstring \<Rightarrow> URL option) \<Rightarrow> anyval \<Rightarrow> js_error + jsstring list"
  and links_loop_any ::
    "(jsstring \<Rightarrow> URL option) \<Rightarrow> anyval list \<Rightarrow> jsstring list \<Rightarrow> js_error + jsstring list" where
  "extractLinksFromPayload_any new_URL Nullish = Inr []"
| "extractLinksFromPayload_any new_URL (Object mt bd ps) =
     (let found = (if is_leaf (js ''text/html'') (MimeNode mt bd None)
                   then extractFromHtml new_URL [] (leaf_text (MimeNode mt bd None)) else [])
      in (case ps of None \<Rightarrow> Inr found | Some pl \<Rightarrow> links_loop_any new_URL pl found))"
| "links_loop_any new_URL [] found = Inr found"
| "links_loop_any new_URL (Nullish # rest) found = Inl TypeError"
| "links_loop_any new_URL (Object mt bd ps # rest) found =
     (let found1 = (if is_leaf (js ''text/html'') (MimeNode mt bd None)
                    then extractFromHtml new_URL found (leaf_text (MimeNode mt bd None))
                    else found)
      in if is_multipart (MimeNode mt bd None) then
           (case extractLinksFromPayload_any new_URL (Object mt bd ps) of
              Inl e \<Rightarrow> Inl e
            | Inr nested \<Rightarrow>
                links_loop_any new_URL rest (fold (\<lambda>link ls. set_add ls link) nested found1))
         else links_loop_any new_URL rest found1)"

text \<open>A typed payload seen as an untyped one.\<close>

fun as_any :: "MimeNode \<Rightarrow> anyval" where
  "as_any (MimeNode mt bd ps) = Object mt bd (map_option (map as_any) ps)"

definition payload_as_any :: "MimeNode option \<Rightarrow> anyval" where
  "payload_as_any payload = (case payload of None \<Rightarrow> Nullish | Some p \<Rightarrow> as_any p)"

section \<open>Properties of the codecs and of message composition\<close>

lemma b64_char_not_pad: "b64_char n \<noteq> 61"
  unfolding b64_char_def by (auto split: if_splits)

lemma b64_value_char: "n < 64 \<Longrightarrow> b64_value (b64_char n) = Some n"
  unfolding b64_value_def b64_char_def by (auto split: if_splits)

lemma b64_value_url_char: "n < 64 \<Longrightarrow> b64_value (b64url_char n) = Some n"
  unfolding b64_value_def b64url_char_def by (auto split: if_splits)

lemma b64url_char_not_pad: "b64url_char n \<noteq> 61"
  unfolding b64url_char_def by (auto split: if_splits)

lemma takeWhile_pad:
  "(\<And>x. x \<in> set xs \<Longrightarrow> f x \<noteq> (61::nat)) \<Longrightarrow>
   takeWhile (\<lambda>c. c \<noteq> 61) (map f xs @ replicate k 61) = map f xs"
  by (induction xs) auto

lemma map_filter_inverse:
  "(\<And>x. x \<in> set xs \<Longrightarrow> g (f x) = Some x) \<Longrightarrow> List.map_filter g (map f xs) = xs"
  by (induction xs) auto

lemma sextets_bound: "\<forall>b\<in>set bs. b < 256 \<Longrightarrow> \<forall>s\<in>set (sextets bs). s < 64"
proof (induction bs rule: sextets.induct)
  case 1
  then show ?case by simp
next
  case (2 a)
  then show ?case by auto
next
  case (3 a b)
  then show ?case by auto
next
  case (4 a b c rest)
  then show ?case by auto
qed

lemma unsextets_sextets: "\<forall>b\<in>set bs. b < 256 \<Longrightarrow> unsextets (sextets bs) = bs"
proof (induction bs rule: sextets.induct)
  case 1
  then show ?case by simp
next
  case (2 a)
  then show ?case by simp
next
  case (3 a b)
  then have "b < 256" by simp
  then show ?case by simp
next
  case (4 a b c rest)
  then have bc: "b < 256" "c < 256" by simp_all
  have "unsextets (sextets rest) = rest" using 4 by simp
  then show ?case using bc by simp
qed

lemma base64_decode_base64: "\<forall>b\<in>set bs. b < 256 \<Longrightarrow> base64_decode (base64 bs) = bs"
  using sextets_bound[of bs]
  by (simp add: base64_decode_def base64_def takeWhile_pad b64_char_not_pad
      map_filter_inverse b64_value_char unsextets_sextets)

lemma takeWhile_no_pad:
  "(\<And>x. x \<in> set xs \<Longrightarrow> f x \<noteq> (61::nat)) \<Longrightarrow>
   takeWhile (\<lambda>c. c \<noteq> 61) (map f xs) = map f xs"
  by (induction xs) auto

lemma base64_decode_base64url: "\<forall>b\<in>set bs. b < 256 \<Longrightarrow> base64_decode (base64url bs) = bs"
  using sextets_bound[of bs]
  by (simp add: base64_decode_def base64url_def takeWhile_no_pad b64url_char_not_pad
      map_filter_inverse b64_value_url_char unsextets_sextets)


lemma utf8_of_cp_bytes: "c < 0x110000 \<Longrightarrow> \<forall>b\<in>set (utf8_of_cp c). b < 256"
  unfolding utf8_of_cp_def by (auto split: if_splits)

lemma mod32_lead: "x < 32 \<Longrightarrow> (192 + x) mod 32 = (x::nat)"
  using mod_mult_self4[of 32 6 x] by simp

lemma mod16_lead: "x < 16 \<Longrightarrow> (224 + x) mod 16 = (x::nat)"
  using mod_mult_self4[of 16 14 x] by simp

lemma mod8_lead: "x < 8 \<Longrightarrow> (240 + x) mod 8 = (x::nat)"
  using mod_mult_self4[of 8 30 x] by simp

lemma mod64_cont: "x < 64 \<Longrightarrow> (128 + x) mod 64 = (x::nat)"
  using mod_mult_self4[of 64 2 x] by simp

lemma split_3: "(c::nat) = ((c div 4096) * 64 + (c div 64) mod 64) * 64 + c mod 64"
proof -
  have "c div 4096 = (c div 64) div 64" by (simp add: div_mult2_eq)
  then have "(c div 4096) * 64 + (c div 64) mod 64 = c div 64" by simp
  then show ?thesis by simp
qed

lemma split_4:
  "(c::nat) = (((c div 262144) * 64 + (c div 4096) mod 64) * 64 + (c div 64) mod 64) * 64 + c mod 64"
proof -
  have "c div 262144 = (c div 4096) div 64" by (simp add: div_mult2_eq)
  then have "(c div 262144) * 64 + (c div 4096) mod 64 = c div 4096" by simp
  then show ?thesis using split_3[of c] by simp
qed

lemma run_2:
  "utf8_lead b0 = ([], (x, 1, lo, hi)) \<Longrightarrow> lo \<le> b1 \<Longrightarrow> b1 \<le> hi \<Longrightarrow>
   utf8_run (0, 0, 0x80, 0xBF) (b0 # b1 # rest)
     = utf16_of_cp (x * 64 + b1 mod 64) @ utf8_run (0, 0, 0x80, 0xBF) rest"
  by simp

lemma run_3:
  "utf8_lead b0 = ([], (x, 2, lo, hi)) \<Longrightarrow> lo \<le> b1 \<Longrightarrow> b1 \<le> hi \<Longrightarrow>
   0x80 \<le> b2 \<Longrightarrow> b2 \<le> 0xBF \<Longrightarrow>
   utf8_run (0, 0, 0x80, 0xBF) (b0 # b1 # b2 # rest)
     = utf16_of_cp ((x * 64 + b1 mod 64) * 64 + b2 mod 64) @ utf8_run (0, 0, 0x80, 0xBF) rest"
  by simp

lemma run_4:
  "utf8_lead b0 = ([], (x, 3, lo, hi)) \<Longrightarrow> lo \<le> b1 \<Longrightarrow> b1 \<le> hi \<Longrightarrow>
   0x80 \<le> b2 \<Longrightarrow> b2 \<le> 0xBF \<Longrightarrow> 0x80 \<le> b3 \<Longrightarrow> b3 \<le> 0xBF \<Longrightarrow>
   utf8_run (0, 0, 0x80, 0xBF) (b0 # b1 # b2 # b3 # rest)
     = utf16_of_cp (((x * 64 + b1 mod 64) * 64 + b2 mod 64) * 64 + b3 mod 64)
       @ utf8_run (0, 0, 0x80, 0xBF) rest"
  by simp

lemma decode_1: "c < 0x80 \<Longrightarrow>
  utf8_run (0, 0, 0x80, 0xBF) (utf8_of_cp c @ rest) = utf16_of_cp c @ utf8_run (0, 0, 0x80, 0xBF) rest"
  by (simp add: utf8_of_cp_def utf8_lead_def utf16_of_cp_def)

lemma decode_2:
  assumes "0x80 \<le> c" "c < 0x800"
  shows "utf8_run (0, 0, 0x80, 0xBF) (utf8_of_cp c @ rest)
           = utf16_of_cp c @ utf8_run (0, 0, 0x80, 0xBF) rest"
proof -
  define x where "x = c div 64"
  define y where "y = c mod 64"
  have c: "c = x * 64 + y" and y: "y < 64" by (simp_all add: x_def y_def)
  have x: "2 \<le> x" "x < 32"
    using assms by (simp_all add: x_def less_mult_imp_div_less less_eq_div_iff_mult_less_eq)
  have m: "(192 + x) mod 32 = x" using x by (simp add: mod32_lead)
  have l: "utf8_lead (0xC0 + x) = ([], (x, 1, 0x80, 0xBF))"
    using x m by (simp add: utf8_lead_def)
  have e: "utf8_of_cp c = [0xC0 + x, 0x80 + y]"
    using assms by (simp add: utf8_of_cp_def x_def y_def)
  have my: "(128 + y) mod 64 = y" using y by (simp add: mod64_cont)
  have "utf8_run (0, 0, 0x80, 0xBF) ((0xC0 + x) # (0x80 + y) # rest)
          = utf16_of_cp (x * 64 + (0x80 + y) mod 64) @ utf8_run (0, 0, 0x80, 0xBF) rest"
    using run_2[OF l, of "0x80 + y" rest] y by simp
  then show ?thesis using e c my by simp
qed

lemma decode_3:
  assumes "0x800 \<le> c" "c < 0x10000" "\<not> (0xD800 \<le> c \<and> c < 0xE000)"
  shows "utf8_run (0, 0, 0x80, 0xBF) (utf8_of_cp c @ rest)
           = utf16_of_cp c @ utf8_run (0, 0, 0x80, 0xBF) rest"
proof -
  define x where "x = c div 4096"
  define y where "y = (c div 64) mod 64"
  define z where "z = c mod 64"
  have c: "c = (x * 64 + y) * 64 + z" unfolding x_def y_def z_def by (rule split_3)
  have b: "x < 16" "y < 64" "z < 64"
    using assms by (simp_all add: x_def y_def z_def less_mult_imp_div_less)
  have lo: "x = 0 \<longrightarrow> 32 \<le> y"
  proof
    assume "x = 0"
    then have "c = y * 64 + z" using c by simp
    then show "32 \<le> y" using assms(1) b by linarith
  qed
  have hi: "x = 13 \<longrightarrow> y < 32"
  proof
    assume "x = 13"
    then have "c = 53248 + y * 64 + z" using c by simp
    then show "y < 32" using assms(3) b by linarith
  qed
  have m: "(224 + x) mod 16 = x" using b by (simp add: mod16_lead)
  have l: "utf8_lead (0xE0 + x)
             = ([], (x, 2, if x = 0 then 0xA0 else 0x80, if x = 13 then 0x9F else 0xBF))"
    using b m by (simp add: utf8_lead_def)
  have e: "utf8_of_cp c = [0xE0 + x, 0x80 + y, 0x80 + z]"
    using assms by (simp add: utf8_of_cp_def x_def y_def z_def)
  have r1: "(if x = 0 then 0xA0 else 0x80) \<le> 0x80 + y" using lo by simp
  have r2: "0x80 + y \<le> (if x = 13 then 0x9F else 0xBF)" using hi b by auto
  have r3: "0x80 \<le> 0x80 + z" "0x80 + z \<le> 0xBF" using b by simp_all
  have v: "(x * 64 + (0x80 + y) mod 64) * 64 + (0x80 + z) mod 64 = c"
    using b c by (simp add: mod64_cont)
  have "utf8_run (0, 0, 0x80, 0xBF) (utf8_of_cp c @ rest)
          = utf8_run (0, 0, 0x80, 0xBF) ((0xE0 + x) # (0x80 + y) # (0x80 + z) # rest)"
    by (simp only: e append.simps)
  also have "\<dots> = utf16_of_cp ((x * 64 + (0x80 + y) mod 64) * 64 + (0x80 + z) mod 64)
                    @ utf8_run (0, 0, 0x80, 0xBF) rest"
    by (rule run_3[OF l r1 r2 r3])
  finally show ?thesis by (simp only: v)
qed

lemma decode_4:
  assumes "0x10000 \<le> c" "c < 0x110000"
  shows "utf8_run (0, 0, 0x80, 0xBF) (utf8_of_cp c @ rest)
           = utf16_of_cp c @ utf8_run (0, 0, 0x80, 0xBF) rest"
proof -
  define x where "x = c div 262144"
  define y where "y = (c div 4096) mod 64"
  define z where "z = (c div 64) mod 64"
  define w where "w = c mod 64"
  have c: "c = ((x * 64 + y) * 64 + z) * 64 + w"
    unfolding x_def y_def z_def w_def by (rule split_4)
  have b: "x < 5" "y < 64" "z < 64" "w < 64"
    using assms by (simp_all add: x_def y_def z_def w_def less_mult_imp_div_less)
  have lo: "x = 0 \<longrightarrow> 16 \<le> y"
  proof
    assume "x = 0"
    then have "c = y * 4096 + z * 64 + w" using c by simp
    then show "16 \<le> y" using assms(1) b by linarith
  qed
  have hi: "x = 4 \<longrightarrow> y < 16"
  proof
    assume "x = 4"
    then have "c = 1048576 + y * 4096 + z * 64 + w" using c by simp
    then show "y < 16" using assms(2) b by linarith
  qed
  have m: "(240 + x) mod 8 = x" using b by (simp add: mod8_lead)
  have l: "utf8_lead (0xF0 + x)
             = ([], (x, 3, if x = 0 then 0x90 else 0x80, if x = 4 then 0x8F else 0xBF))"
    using b m by (simp add: utf8_lead_def)
  have e: "utf8_of_cp c = [0xF0 + x, 0x80 + y, 0x80 + z, 0x80 + w]"
    using assms by (simp add: utf8_of_cp_def x_def y_def z_def w_def)
  have r1: "(if x = 0 then 0x90 else 0x80) \<le> 0x80 + y" using lo by simp
  have r2: "0x80 + y \<le> (if x = 4 then 0x8F else 0xBF)" using hi b by auto
  have r3: "0x80 \<le> 0x80 + z" "0x80 + z \<le> 0xBF" using b by simp_all
  have r4: "0x80 \<le> 0x80 + w" "0x80 + w \<le> 0xBF" using b by simp_all
  have v: "((x * 64 + (0x80 + y) mod 64) * 64 + (0x80 + z) mod 64) * 64 + (0x80 + w) mod 64 = c"
    using b c by (simp add: mod64_cont)
  have "utf8_run (0, 0, 0x80, 0xBF) (utf8_of_cp c @ rest)
          = utf8_run (0, 0, 0x80, 0xBF)
              ((0xF0 + x) # (0x80 + y) # (0x80 + z) # (0x80 + w) # rest)"
    by (simp only: e append.simps)
  also have "\<dots> = utf16_of_cp (((x * 64 + (0x80 + y) mod 64) * 64 + (0x80 + z) mod 64) * 64
                                 + (0x80 + w) mod 64)
                    @ utf8_run (0, 0, 0x80, 0xBF) rest"
    by (rule run_4[OF l r1 r2 r3 r4])
  finally show ?thesis by (simp only: v)
qed

lemma decode_scalar:
  "scalar c \<Longrightarrow>
   utf8_run (0, 0, 0x80, 0xBF) (utf8_of_cp c @ rest) = utf16_of_cp c @ utf8_run (0, 0, 0x80, 0xBF) rest"
  using decode_1[of c rest] decode_2[of c rest] decode_3[of c rest] decode_4[of c rest]
  unfolding scalar_def by linarith


lemma utf16_of_pair:
  assumes "is_high u" "is_low l"
  shows "utf16_of_cp (0x10000 + (u - 0xD800) * 1024 + (l - 0xDC00)) = [u, l]"
    and "scalar (0x10000 + (u - 0xD800) * 1024 + (l - 0xDC00))"
proof -
  define a where "a = u - 0xD800"
  define b where "b = l - 0xDC00"
  have ab: "a < 1024" "b < 1024" "u = 0xD800 + a" "l = 0xDC00 + b"
    using assms by (auto simp: a_def b_def is_high_def is_low_def)
  have "(a * 1024 + b) div 1024 = a" "(a * 1024 + b) mod 1024 = b" using ab by simp_all
  then show "utf16_of_cp (0x10000 + (u - 0xD800) * 1024 + (l - 0xDC00)) = [u, l]"
    using ab by (simp add: utf16_of_cp_def a_def[symmetric] b_def[symmetric])
  show "scalar (0x10000 + (u - 0xD800) * 1024 + (l - 0xDC00))"
    using ab by (simp add: scalar_def a_def[symmetric] b_def[symmetric])
qed

lemma scalar_unit: "u < 0x10000 \<Longrightarrow> \<not> is_high u \<Longrightarrow> \<not> is_low u \<Longrightarrow> scalar u \<and> utf16_of_cp u = [u]"
  by (auto simp: scalar_def is_high_def is_low_def utf16_of_cp_def)

lemma utf8_decode_encode: "wf_utf16 s \<Longrightarrow> utf8_decode (utf8_encode s) = s"
  unfolding utf8_decode_def
proof (induction s rule: utf8_encode.induct)
  case 1
  then show ?case by simp
next
  case (2 u)
  then have "scalar u \<and> utf16_of_cp u = [u]" by (simp add: scalar_unit)
  then show ?case using 2 decode_scalar[of u "[]"] by simp
next
  case (3 u l rest)
  show ?case
  proof (cases "is_high u")
    case True
    then have l: "is_low l" and r: "wf_utf16 rest" using "3.prems" by simp_all
    have "utf8_run (0, 0, 0x80, 0xBF) (utf8_encode rest) = rest" using "3.IH"(1)[OF True l] r by simp
    then show ?thesis
      using True l utf16_of_pair[OF True l]
        decode_scalar[of "0x10000 + (u - 0xD800) * 1024 + (l - 0xDC00)" "utf8_encode rest"]
      by simp
  next
    case False
    then have nl: "\<not> is_low u" and r: "wf_utf16 (l # rest)" and u: "u < 0x10000"
      using "3.prems" by simp_all
    have "utf8_run (0, 0, 0x80, 0xBF) (utf8_encode (l # rest)) = l # rest"
      using "3.IH"(4)[OF False nl] r by simp
    then show ?thesis
      using False nl scalar_unit[OF u False nl] decode_scalar[of u "utf8_encode (l # rest)"]
      by simp
  qed
qed

lemma utf8_encode_bytes: "wf_utf16 s \<Longrightarrow> \<forall>b\<in>set (utf8_encode s). b < 256"
proof (induction s rule: utf8_encode.induct)
  case 1
  then show ?case by simp
next
  case (2 u)
  then show ?case using utf8_of_cp_bytes[of u] by simp
next
  case (3 u l rest)
  show ?case
  proof (cases "is_high u")
    case True
    then have l: "is_low l" and r: "wf_utf16 rest" using "3.prems" by simp_all
    have "0x10000 + (u - 0xD800) * 1024 + (l - 0xDC00) < 0x110000"
      using utf16_of_pair(2)[OF True l] by (simp add: scalar_def)
    then show ?thesis
      using True l r "3.IH"(1)[OF True l]
        utf8_of_cp_bytes[of "0x10000 + (u - 0xD800) * 1024 + (l - 0xDC00)"]
      by auto
  next
    case False
    then have nl: "\<not> is_low u" and r: "wf_utf16 (l # rest)" and u: "u < 0x10000"
      using "3.prems" by simp_all
    then show ?thesis using False "3.IH"(4)[OF False nl] utf8_of_cp_bytes[of u] by auto
  qed
qed

lemma b64url_char_safe: "n < 64 \<Longrightarrow> url_safe (b64url_char n)"
  unfolding url_safe_def b64url_char_def by (auto split: if_splits)

lemma base64url_safe: "\<forall>b\<in>set bs. b < 256 \<Longrightarrow> list_all url_safe (base64url bs)"
  using sextets_bound[of bs] by (simp add: base64url_def list_all_iff b64url_char_safe)


lemma decode_encoded_word_roundtrip:
  assumes "wf_utf16 s"
  shows "decode_encoded_word (js ''=?UTF-8?B?'' @ base64 (utf8_encode s) @ js ''?='') = Some s"
proof -
  let ?p = "js ''=?UTF-8?B?''" and ?b = "base64 (utf8_encode s)" and ?e = "js ''?=''"
  have lp: "length ?p = 10" and le: "length ?e = 2" by (simp_all add: js_def)
  have 1: "startsWith (?p @ ?b @ ?e) ?p" by (simp add: startsWith_def)
  have 2: "drop (length (?p @ ?b @ ?e) - 2) (?p @ ?b @ ?e) = ?e" using lp le by simp
  have 3: "take (length (?p @ ?b @ ?e) - 12) (drop 10 (?p @ ?b @ ?e)) = ?b" using lp le by simp
  have 4: "12 \<le> length (?p @ ?b @ ?e)" using lp le by simp
  have "utf8_decode (base64_decode ?b) = s"
    using assms by (simp add: base64_decode_base64 utf8_encode_bytes utf8_decode_encode)
  then show ?thesis
    unfolding decode_encoded_word_def using 1 2 3 4 by (simp only: if_True simp_thms)
qed

text \<open>
  C3, amended. A subject of printable ASCII only is passed on unchanged. Any other
  subject becomes the single encoded word \<open>=?UTF-8?B?\<close>, base64 of its UTF-8 bytes,
  \<open>?=\<close>; when the subject is well formed (no unpaired surrogate), decoding that word
  gives the subject back. The second line of the message is \<open>Subject: \<close> followed by
  this value.
\<close>

theorem encodeSubject_encoded_word:
  "(list_all printable subject \<longrightarrow> encodeSubject subject = subject) \<and>
   (\<not> list_all printable subject \<longrightarrow>
      encodeSubject subject = js ''=?UTF-8?B?'' @ base64 (utf8_encode subject) @ js ''?='' \<and>
      (wf_utf16 subject \<longrightarrow> decode_encoded_word (encodeSubject subject) = Some subject)) \<and>
   messageParts rcpts subject text cc bcc ! 1 = js ''Subject: '' @ encodeSubject subject"
  using decode_encoded_word_roundtrip[of subject]
  by (simp add: encodeSubject_def messageParts_def)

theorem encodeSubject_encoded_word_witness:
  "list_all printable (js ''Hi'') \<and> encodeSubject (js ''Hi'') = js ''Hi'' \<and>
   \<not> list_all printable [0x48, 0xE9] \<and> wf_utf16 [0x48, 0xE9] \<and>
   encodeSubject [0x48, 0xE9] = js ''=?UTF-8?B?SMOp?='' \<and>
   decode_encoded_word (js ''=?UTF-8?B?SMOp?='') = Some [0x48, 0xE9]"
proof -
  have a: "list_all printable (js ''Hi'')" by code_simp
  have b: "\<not> list_all printable [0x48, 0xE9]" by code_simp
  have c: "wf_utf16 [0x48, 0xE9]" by code_simp
  have d: "js ''=?UTF-8?B?'' @ base64 (utf8_encode [0x48, 0xE9]) @ js ''?='' = js ''=?UTF-8?B?SMOp?=''"
    by code_simp
  have h: "encodeSubject (js ''Hi'') = js ''Hi''"
    using encodeSubject_encoded_word[of "js ''Hi''"] a by blast
  have e: "encodeSubject [0x48, 0xE9] = js ''=?UTF-8?B?SMOp?=''"
    using encodeSubject_encoded_word[of "[0x48, 0xE9]"] b d by metis
  have "decode_encoded_word (encodeSubject [0x48, 0xE9]) = Some [0x48, 0xE9]"
    using encodeSubject_encoded_word[of "[0x48, 0xE9]"] b c by blast
  then have r: "decode_encoded_word (js ''=?UTF-8?B?SMOp?='') = Some [0x48, 0xE9]"
    by (simp only: e)
  show ?thesis using a h b c e r by blast
qed

text \<open>
  C3, as stated for every subject string, fails for a subject with an unpaired
  surrogate: \<open>Buffer.from\<close> writes it as U+FFFD, so the encoded word of the one-unit
  subject \<open>\uD800\<close> is \<open>=?UTF-8?B?77+9?=\<close>, which decodes to U+FFFD.
\<close>

theorem encodeSubject_unpaired_surrogate_counterexample:
  "\<not> list_all printable [0xD800] \<and>
   encodeSubject [0xD800] = js ''=?UTF-8?B?77+9?='' \<and>
   decode_encoded_word (encodeSubject [0xD800]) = Some [0xFFFD] \<and>
   decode_encoded_word (encodeSubject [0xD800]) \<noteq> Some [0xD800]"
  by code_simp

lemma composeEmail_lines:
  "composeEmail rcpts subject text cc bcc =
     js ''To: '' @ join (js '', '') rcpts @ [13, 10]
     @ js ''Subject: '' @ encodeSubject subject @ [13, 10]
     @ (case cc of Some c \<Rightarrow> (if c \<noteq> [] then js ''Cc: '' @ join (js '', '') c @ [13, 10] else [])
        | None \<Rightarrow> [])
     @ (case bcc of Some b \<Rightarrow> (if b \<noteq> [] then js ''Bcc: '' @ join (js '', '') b @ [13, 10] else [])
        | None \<Rightarrow> [])
     @ js ''Content-Type: text/plain; charset=utf-8'' @ [13, 10] @ [13, 10] @ text"
  by (simp add: composeEmail_def messageParts_def split: option.splits)

text \<open>
  C4. The transport receives the URL-safe base64 of the UTF-8 bytes of the message, and
  the message is the line \<open>To\<close>, the line \<open>Subject\<close>, the line \<open>Cc\<close> when \<open>cc\<close> is there
  and not empty, the line \<open>Bcc\<close> likewise, the fixed \<open>Content-Type\<close> line, an empty
  line and the body as it is, each line ended by CR LF. For a well-formed message the
  encoding uses the URL-safe alphabet only and decodes back to the message.
\<close>

theorem sendEmail_message:
  "sendEmail send rcpts subject text cc bcc
     = send (base64url (utf8_encode (composeEmail rcpts subject text cc bcc))) \<and>
   composeEmail rcpts subject text cc bcc =
     js ''To: '' @ join (js '', '') rcpts @ [13, 10]
     @ js ''Subject: '' @ encodeSubject subject @ [13, 10]
     @ (case cc of Some c \<Rightarrow> (if c \<noteq> [] then js ''Cc: '' @ join (js '', '') c @ [13, 10] else [])
        | None \<Rightarrow> [])
     @ (case bcc of Some b \<Rightarrow> (if b \<noteq> [] then js ''Bcc: '' @ join (js '', '') b @ [13, 10] else [])
        | None \<Rightarrow> [])
     @ js ''Content-Type: text/plain; charset=utf-8'' @ [13, 10] @ [13, 10] @ text \<and>
   (wf_utf16 (composeEmail rcpts subject text cc bcc) \<longrightarrow>
      list_all url_safe (base64url (utf8_encode (composeEmail rcpts subject text cc bcc))) \<and>
      decode_body (base64url (utf8_encode (composeEmail rcpts subject text cc bcc)))
        = composeEmail rcpts subject text cc bcc)"
proof (intro conjI impI)
  show "sendEmail send rcpts subject text cc bcc
     = send (base64url (utf8_encode (composeEmail rcpts subject text cc bcc)))"
    by (simp add: sendEmail_def)
  show "composeEmail rcpts subject text cc bcc =
     js ''To: '' @ join (js '', '') rcpts @ [13, 10]
     @ js ''Subject: '' @ encodeSubject subject @ [13, 10]
     @ (case cc of Some c \<Rightarrow> (if c \<noteq> [] then js ''Cc: '' @ join (js '', '') c @ [13, 10] else [])
        | None \<Rightarrow> [])
     @ (case bcc of Some b \<Rightarrow> (if b \<noteq> [] then js ''Bcc: '' @ join (js '', '') b @ [13, 10] else [])
        | None \<Rightarrow> [])
     @ js ''Content-Type: text/plain; charset=utf-8'' @ [13, 10] @ [13, 10] @ text"
    by (rule composeEmail_lines)
next
  assume w: "wf_utf16 (composeEmail rcpts subject text cc bcc)"
  show "list_all url_safe (base64url (utf8_encode (composeEmail rcpts subject text cc bcc)))"
    using w by (simp add: base64url_safe utf8_encode_bytes)
  show "decode_body (base64url (utf8_encode (composeEmail rcpts subject text cc bcc)))
        = composeEmail rcpts subject text cc bcc"
    using w by (simp add: decode_body_def base64_decode_base64url utf8_encode_bytes utf8_decode_encode)
qed

theorem sendEmail_message_witness:
  "wf_utf16 (composeEmail [js ''a@x.org'', js ''b@x.org''] (js ''Hi'') (js ''Hello'')
       (Some [js ''c@x.org'']) None) \<and>
   sendEmail (\<lambda>raw. raw) [js ''a@x.org'', js ''b@x.org''] (js ''Hi'') (js ''Hello'')
       (Some [js ''c@x.org'']) None
     = js ''VG86IGFAeC5vcmcsIGJAeC5vcmcNClN1YmplY3Q6IEhpDQpDYzogY0B4Lm9yZw0KQ29udGVudC1UeXBlOiB0ZXh0L3BsYWluOyBjaGFyc2V0PXV0Zi04DQoNCkhlbGxv'' \<and>
   decode_body (js ''VG86IGFAeC5vcmcsIGJAeC5vcmcNClN1YmplY3Q6IEhpDQpDYzogY0B4Lm9yZw0KQ29udGVudC1UeXBlOiB0ZXh0L3BsYWluOyBjaGFyc2V0PXV0Zi04DQoNCkhlbGxv'')
     = js ''To: a@x.org, b@x.org'' @ [13, 10] @ js ''Subject: Hi'' @ [13, 10]
       @ js ''Cc: c@x.org'' @ [13, 10] @ js ''Content-Type: text/plain; charset=utf-8''
       @ [13, 10] @ [13, 10] @ js ''Hello''"
proof -
  let ?e = "composeEmail [js ''a@x.org'', js ''b@x.org''] (js ''Hi'') (js ''Hello'')
       (Some [js ''c@x.org'']) None"
  let ?raw = "js ''VG86IGFAeC5vcmcsIGJAeC5vcmcNClN1YmplY3Q6IEhpDQpDYzogY0B4Lm9yZw0KQ29udGVudC1UeXBlOiB0ZXh0L3BsYWluOyBjaGFyc2V0PXV0Zi04DQoNCkhlbGxv''"
  have w: "wf_utf16 ?e" by code_simp
  have r: "base64url (utf8_encode ?e) = ?raw" by code_simp
  have t: "?e = js ''To: a@x.org, b@x.org'' @ [13, 10] @ js ''Subject: Hi'' @ [13, 10]
       @ js ''Cc: c@x.org'' @ [13, 10] @ js ''Content-Type: text/plain; charset=utf-8''
       @ [13, 10] @ [13, 10] @ js ''Hello''" by code_simp
  show ?thesis
    using sendEmail_message[of "\<lambda>raw. raw" "[js ''a@x.org'', js ''b@x.org'']" "js ''Hi''"
        "js ''Hello''" "Some [js ''c@x.org'']" None] w r t
    by simp
qed

section \<open>Properties of plain-text extraction\<close>

lemma html_loop_None: "\<forall>c\<in>set pl. \<not> is_leaf (js ''text/html'') c \<Longrightarrow> html_loop pl = None"
  by (induction pl) auto

lemma self_in_nodes: "x \<in> set (nodes x)" by (cases x) simp

lemma no_leaf_empty:
  "(\<forall>x\<in>set (nodes n). \<not> is_text_leaf x) \<longrightarrow> extractPlainTextBody_node n = []"
  "(\<forall>c\<in>set pl. \<forall>x\<in>set (nodes c). \<not> is_text_leaf x) \<longrightarrow> plain_loop pl = None"
proof (induction n and pl rule: extractPlainTextBody_node_plain_loop.induct)
  case (1 mt bd ps)
  show ?case
  proof
    assume a: "\<forall>x\<in>set (nodes (MimeNode mt bd ps)). \<not> is_text_leaf x"
    then have r: "\<not> is_leaf (js ''text/plain'') (MimeNode mt bd ps)"
      by (simp add: is_text_leaf_def)
    show "extractPlainTextBody_node (MimeNode mt bd ps) = []"
    proof (cases ps)
      case None
      then show ?thesis using r by simp
    next
      case (Some pl)
      from a Some have ch: "\<forall>c\<in>set pl. \<forall>x\<in>set (nodes c). \<not> is_text_leaf x" by auto
      then have "plain_loop pl = None" using 1 r Some by simp
      moreover have "html_loop pl = None"
        using ch self_in_nodes by (intro html_loop_None) (auto simp: is_text_leaf_def)
      ultimately show ?thesis using r Some by simp
    qed
  qed
next
  case 2
  then show ?case by simp
next
  case (3 part rest)
  show ?case
  proof
    assume a: "\<forall>c\<in>set (part # rest). \<forall>x\<in>set (nodes c). \<not> is_text_leaf x"
    then have p: "\<not> is_leaf (js ''text/plain'') part"
      using self_in_nodes[of part] by (auto simp: is_text_leaf_def)
    from a have n: "extractPlainTextBody_node part = []" if "is_multipart part"
      using 3(1) p that by simp
    from a have "plain_loop rest = None" using 3(2,3) p n by (cases "is_multipart part") auto
    then show "plain_loop (part # rest) = None" using p n by (simp add: Let_def)
  qed
qed

lemma multipart_not_html: "is_multipart c \<Longrightarrow> \<not> is_leaf (js ''text/html'') c"
  by (auto simp: is_multipart_def is_leaf_def startsWith_def js_def)

lemma html_loop_Some:
  "c \<in> set pl \<Longrightarrow> is_leaf (js ''text/html'') c \<Longrightarrow>
   \<forall>x\<in>set pl. is_leaf (js ''text/html'') x \<longrightarrow> html_to_text (leaf_text x) \<noteq> [] \<Longrightarrow>
   \<exists>r. html_loop pl = Some r \<and> r \<noteq> []"
  by (induction pl) auto

lemma texts_nonempty_child:
  "texts_nonempty (MimeNode mt bd (Some pl)) \<Longrightarrow> c \<in> set pl \<Longrightarrow> texts_nonempty c"
  by (auto simp: texts_nonempty_def list_all_iff)

lemma texts_nonempty_self:
  "texts_nonempty x \<Longrightarrow>
   (is_leaf (js ''text/plain'') x \<longrightarrow> leaf_text x \<noteq> []) \<and>
   (is_leaf (js ''text/html'') x \<longrightarrow> html_to_text (leaf_text x) \<noteq> [])"
  using self_in_nodes[of x] by (auto simp: texts_nonempty_def list_all_iff)

lemma has_text_leaf_no_parts: "parts c = None \<Longrightarrow> has_text_leaf c = is_text_leaf c"
  by (cases c) (simp add: has_text_leaf_def)

lemma has_text_leaf_node:
  "has_text_leaf (MimeNode mt bd ps) =
     (is_text_leaf (MimeNode mt bd ps) \<or> (\<exists>pl. ps = Some pl \<and> (\<exists>c\<in>set pl. has_text_leaf c)))"
  by (cases ps) (auto simp: has_text_leaf_def list_ex_iff)

lemma leaf_found:
  "wf_parts n \<and> texts_nonempty n \<and> \<not> is_leaf (js ''text/html'') n \<and> has_text_leaf n
     \<longrightarrow> extractPlainTextBody_node n \<noteq> []"
  "(\<forall>c\<in>set pl. (parts c \<noteq> None \<longrightarrow> is_multipart c) \<and> wf_parts c \<and> texts_nonempty c)
     \<longrightarrow> (\<forall>r. plain_loop pl = Some r \<longrightarrow> r \<noteq> []) \<and>
         (plain_loop pl = None \<longrightarrow> (\<forall>c\<in>set pl. has_text_leaf c \<longrightarrow> is_leaf (js ''text/html'') c))"
proof (induction n and pl rule: extractPlainTextBody_node_plain_loop.induct)
  case (1 mt bd ps)
  let ?n = "MimeNode mt bd ps"
  show ?case
  proof (intro impI, elim conjE)
    assume wf: "wf_parts ?n" and ne: "texts_nonempty ?n"
      and nh: "\<not> is_leaf (js ''text/html'') ?n" and hl: "has_text_leaf ?n"
    show "extractPlainTextBody_node ?n \<noteq> []"
    proof (cases "is_leaf (js ''text/plain'') ?n")
      case True
      then show ?thesis using texts_nonempty_self[OF ne] by simp
    next
      case False
      with hl nh obtain pl c where ps: "ps = Some pl" and c: "c \<in> set pl" "has_text_leaf c"
        by (auto simp: has_text_leaf_node is_text_leaf_def)
      have ch: "\<forall>c\<in>set pl. (parts c \<noteq> None \<longrightarrow> is_multipart c) \<and> wf_parts c \<and> texts_nonempty c"
        using wf ne ps texts_nonempty_child by (auto simp: list_all_iff)
      have Q: "(\<forall>r. plain_loop pl = Some r \<longrightarrow> r \<noteq> []) \<and>
         (plain_loop pl = None \<longrightarrow> (\<forall>c\<in>set pl. has_text_leaf c \<longrightarrow> is_leaf (js ''text/html'') c))"
        using 1[OF False ps] ch by blast
      show ?thesis
      proof (cases "plain_loop pl")
        case (Some r)
        then show ?thesis using Q False ps by simp
      next
        case None
        then have "is_leaf (js ''text/html'') c" using Q c by blast
        moreover have "\<forall>x\<in>set pl. is_leaf (js ''text/html'') x \<longrightarrow> html_to_text (leaf_text x) \<noteq> []"
          using ch texts_nonempty_self by blast
        ultimately obtain r where "html_loop pl = Some r" "r \<noteq> []"
          using html_loop_Some[OF c(1)] by blast
        then show ?thesis using None False ps by simp
      qed
    qed
  qed
next
  case 2
  then show ?case by simp
next
  case (3 part rest)
  show ?case
  proof (intro impI)
    assume a: "\<forall>c\<in>set (part # rest). (parts c \<noteq> None \<longrightarrow> is_multipart c) \<and> wf_parts c \<and> texts_nonempty c"
    then have pa: "parts part \<noteq> None \<longrightarrow> is_multipart part" "wf_parts part" "texts_nonempty part"
      and ra: "\<forall>c\<in>set rest. (parts c \<noteq> None \<longrightarrow> is_multipart c) \<and> wf_parts c \<and> texts_nonempty c"
      by auto
    show "(\<forall>r. plain_loop (part # rest) = Some r \<longrightarrow> r \<noteq> []) \<and>
         (plain_loop (part # rest) = None \<longrightarrow>
            (\<forall>c\<in>set (part # rest). has_text_leaf c \<longrightarrow> is_leaf (js ''text/html'') c))"
    proof (cases "is_leaf (js ''text/plain'') part")
      case True
      then show ?thesis using texts_nonempty_self[OF pa(3)] by simp
    next
      case np: False
      show ?thesis
      proof (cases "is_multipart part")
        case True
        show ?thesis
        proof (cases "extractPlainTextBody_node part = []")
          case e: True
          have "\<not> has_text_leaf part"
            using 3(1)[OF np True] pa multipart_not_html[OF True] e by blast
          moreover have "(\<forall>r. plain_loop rest = Some r \<longrightarrow> r \<noteq> []) \<and>
            (plain_loop rest = None \<longrightarrow> (\<forall>c\<in>set rest. has_text_leaf c \<longrightarrow> is_leaf (js ''text/html'') c))"
            using 3(2)[OF np True refl] e ra by blast
          ultimately show ?thesis using np True e by (simp add: Let_def)
        next
          case False
          then show ?thesis using np True by (simp add: Let_def)
        qed
      next
        case False
        then have "parts part = None" using pa by blast
        then have "has_text_leaf part \<longrightarrow> is_leaf (js ''text/html'') part"
          using np by (simp add: has_text_leaf_no_parts is_text_leaf_def)
        moreover have "(\<forall>r. plain_loop rest = Some r \<longrightarrow> r \<noteq> []) \<and>
            (plain_loop rest = None \<longrightarrow> (\<forall>c\<in>set rest. has_text_leaf c \<longrightarrow> is_leaf (js ''text/html'') c))"
          using 3(3)[OF np False] ra by blast
        ultimately show ?thesis using np False by simp
      qed
    qed
  qed
qed

text \<open>
  C1. The specification lets plain text win at any depth. The source returns whatever
  the recursive call on a multipart part returns, and that call has its own HTML fallback:
  a multipart part holding only HTML, placed before a plain-text part, makes the function
  return the converted HTML. Here the root is \<open>multipart/mixed\<close> with the parts
  \<open>multipart/alternative [text/html "<b>h</b>"]\<close> and \<open>text/plain "plain"\<close>.
\<close>

theorem extractPlainTextBody_nested_html_first:
  "extractPlainTextBody
     (Some (MimeNode (Some (js ''multipart/mixed'')) None (Some
        [MimeNode (Some (js ''multipart/alternative'')) None (Some
           [MimeNode (Some (js ''text/html'')) (Some (js ''PGI-aDwvYj4='')) None]),
         MimeNode (Some (js ''text/plain'')) (Some (js ''cGxhaW4='')) None])))
   = js ''h''"
  by code_simp

text \<open>
  The example of the specification holds: a plain-text leaf inside two multipart wrappers
  wins over an HTML leaf that is a later part of the root.
\<close>

lemma extractPlainTextBody_nested_plain_example:
  "extractPlainTextBody
     (Some (MimeNode (Some (js ''multipart/mixed'')) None (Some
        [MimeNode (Some (js ''multipart/related'')) None (Some
           [MimeNode (Some (js ''multipart/alternative'')) None (Some
              [MimeNode (Some (js ''text/plain'')) (Some (js ''ZGVlcA=='')) None])]),
         MimeNode (Some (js ''text/html'')) (Some (js ''PGI-aDwvYj4='')) None])))
   = js ''deep''"
  by code_simp

text \<open>
  C2, as stated, fails: a \<open>multipart/alternative\<close> whose only part is the HTML leaf
  \<open><br>\<close> has a text leaf with payload data, and its extracted text is empty.
\<close>

theorem extractPlainTextBody_empty_iff_counterexample:
  "\<not> (extractPlainTextBody
        (Some (MimeNode (Some (js ''multipart/alternative'')) None (Some
           [MimeNode (Some (js ''text/html'')) (Some (js ''PGJyPg=='')) None]))) = []
      \<longleftrightarrow> \<not> has_text_leaf
        (MimeNode (Some (js ''multipart/alternative'')) None (Some
           [MimeNode (Some (js ''text/html'')) (Some (js ''PGJyPg=='')) None])))"
  by code_simp

text \<open>
  C2, amended. A tree without any text leaf gives the empty string. Conversely, in a
  tree of the promised shape whose root is not itself an HTML leaf and whose text leaves
  all yield some text, the result is empty only if there is no text leaf.
\<close>

theorem extractPlainTextBody_empty_iff:
  "(\<not> has_text_leaf t \<longrightarrow> extractPlainTextBody (Some t) = []) \<and>
   (wf_parts t \<and> texts_nonempty t \<and> \<not> is_leaf (js ''text/html'') t \<longrightarrow>
      (extractPlainTextBody (Some t) = [] \<longleftrightarrow> \<not> has_text_leaf t))"
proof -
  have a: "\<not> has_text_leaf t \<longrightarrow> extractPlainTextBody (Some t) = []"
    using no_leaf_empty(1)[of t]
    by (simp add: has_text_leaf_def list_ex_iff extractPlainTextBody_def)
  have b: "wf_parts t \<and> texts_nonempty t \<and> \<not> is_leaf (js ''text/html'') t \<and> has_text_leaf t
             \<longrightarrow> extractPlainTextBody (Some t) \<noteq> []"
    using leaf_found(1)[of t] by (simp add: extractPlainTextBody_def)
  from a b show ?thesis by blast
qed

theorem extractPlainTextBody_empty_iff_witness:
  "wf_parts (MimeNode (Some (js ''multipart/alternative'')) None (Some
      [MimeNode (Some (js ''text/html'')) (Some (js ''PGI-aDwvYj4='')) None])) \<and>
   texts_nonempty (MimeNode (Some (js ''multipart/alternative'')) None (Some
      [MimeNode (Some (js ''text/html'')) (Some (js ''PGI-aDwvYj4='')) None])) \<and>
   \<not> is_leaf (js ''text/html'') (MimeNode (Some (js ''multipart/alternative'')) None (Some
      [MimeNode (Some (js ''text/html'')) (Some (js ''PGI-aDwvYj4='')) None])) \<and>
   has_text_leaf (MimeNode (Some (js ''multipart/alternative'')) None (Some
      [MimeNode (Some (js ''text/html'')) (Some (js ''PGI-aDwvYj4='')) None])) \<and>
   extractPlainTextBody (Some (MimeNode (Some (js ''multipart/alternative'')) None (Some
      [MimeNode (Some (js ''text/html'')) (Some (js ''PGI-aDwvYj4='')) None]))) \<noteq> [] \<and>
   \<not> has_text_leaf (MimeNode (Some (js ''text/csv'')) (Some (js ''YQ=='')) None) \<and>
   extractPlainTextBody (Some (MimeNode (Some (js ''text/csv'')) (Some (js ''YQ=='')) None)) = []"
proof -
  let ?t = "MimeNode (Some (js ''multipart/alternative'')) None (Some
      [MimeNode (Some (js ''text/html'')) (Some (js ''PGI-aDwvYj4='')) None])"
  let ?u = "MimeNode (Some (js ''text/csv'')) (Some (js ''YQ=='')) None"
  have w: "wf_parts ?t" by code_simp
  have n: "texts_nonempty ?t" by code_simp
  have h: "\<not> is_leaf (js ''text/html'') ?t" by code_simp
  have l: "has_text_leaf ?t" by code_simp
  have u: "\<not> has_text_leaf ?u" by code_simp
  show ?thesis
    using extractPlainTextBody_empty_iff[of ?t] extractPlainTextBody_empty_iff[of ?u] w n h l u
    by blast
qed

section \<open>Properties of link extraction\<close>

lemma set_fold_set_add: "set (fold (\<lambda>x l. set_add l x) xs acc) = set acc \<union> set xs"
  by (induction xs arbitrary: acc) (auto simp: set_add_def)

lemma distinct_set_add: "distinct l \<Longrightarrow> distinct (set_add l x)"
  by (simp add: set_add_def)

lemma distinct_fold_set_add: "distinct acc \<Longrightarrow> distinct (fold (\<lambda>x l. set_add l x) xs acc)"
  by (induction xs arbitrary: acc) (auto simp: distinct_set_add)

lemma fold_set_add_first_occurrences:
  "distinct acc \<Longrightarrow> fold (\<lambda>x l. set_add l x) xs acc = rev (remdups (rev (acc @ xs)))"
proof (induction xs rule: rev_induct)
  case Nil
  then show ?case by (simp add: distinct_remdups_id)
next
  case (snoc x xs)
  then show ?case by (auto simp: set_add_def)
qed

lemma set_add_mem: "x \<in> set l \<Longrightarrow> set_add l x = l"
  by (simp add: set_add_def)

lemma set_add_new: "x \<notin> set l \<Longrightarrow> set_add l x = l @ [x]"
  by (simp add: set_add_def)

lemma set_add_fold:
  "fold (\<lambda>x l. set_add l x) (set_add acc x) l = set_add (fold (\<lambda>x l. set_add l x) acc l) x"
proof (cases "x \<in> set acc")
  case True
  then show ?thesis by (simp add: set_add_mem set_fold_set_add)
next
  case False
  then show ?thesis by (simp add: set_add_new)
qed

lemma fold_set_add_merge:
  "fold (\<lambda>x l. set_add l x) (fold (\<lambda>x l. set_add l x) xs acc) l
     = fold (\<lambda>x l. set_add l x) xs (fold (\<lambda>x l. set_add l x) acc l)"
proof (induction xs arbitrary: acc)
  case Nil
  then show ?case by simp
next
  case (Cons x xs)
  then show ?case by (simp add: set_add_fold)
qed

lemma href_step_link_of:
  "href_step new_URL url ls = (case link_of new_URL url of Some c \<Rightarrow> set_add ls c | None \<Rightarrow> ls)"
  by (simp add: href_step_def link_of_def split: option.splits)

lemma fold_href_step:
  "fold (href_step new_URL) us ls = fold (\<lambda>x l. set_add l x) (List.map_filter (link_of new_URL) us) ls"
  by (induction us arbitrary: ls) (auto simp: href_step_link_of split: option.splits)

lemma extractFromHtml_html_links:
  "extractFromHtml new_URL ls html = fold (\<lambda>x l. set_add l x) (html_links new_URL html) ls"
  by (simp add: extractFromHtml_def html_links_def fold_href_step)

lemma nodes_no_parts: "parts c = None \<Longrightarrow> nodes c = [c]"
  by (cases c) simp

lemma links_are_tree_links:
  "wf_parts n \<longrightarrow> extractLinksFromPayload_node new_URL n
     = fold (\<lambda>x l. set_add l x) (concat (map (node_links new_URL) (nodes n))) []"
  "(\<forall>c\<in>set pl. (parts c \<noteq> None \<longrightarrow> is_multipart c) \<and> wf_parts c) \<longrightarrow>
     links_loop new_URL pl ls
       = fold (\<lambda>x l. set_add l x) (concat (map (node_links new_URL) (concat (map nodes pl)))) ls"
proof (induction new_URL n and new_URL pl ls rule: extractLinksFromPayload_node_links_loop.induct)
  case (1 new_URL mt bd ps)
  show ?case
  proof
    assume wf: "wf_parts (MimeNode mt bd ps)"
    show "extractLinksFromPayload_node new_URL (MimeNode mt bd ps)
      = fold (\<lambda>x l. set_add l x) (concat (map (node_links new_URL) (nodes (MimeNode mt bd ps)))) []"
    proof (cases ps)
      case None
      then show ?thesis by (simp add: node_links_def extractFromHtml_html_links)
    next
      case (Some pl)
      let ?n = "MimeNode mt bd ps"
      let ?add = "fold (\<lambda>x l. set_add l x)"
      let ?l0 = "if is_leaf (js ''text/html'') ?n
                 then extractFromHtml new_URL [] (leaf_text ?n) else []"
      have ch: "\<forall>c\<in>set pl. (parts c \<noteq> None \<longrightarrow> is_multipart c) \<and> wf_parts c"
        using wf Some by (simp add: list_all_iff)
      have ih: "links_loop new_URL pl ?l0
                  = ?add (concat (map (node_links new_URL) (concat (map nodes pl)))) ?l0"
        using 1[OF refl Some] ch by blast
      have l0: "?l0 = ?add (node_links new_URL ?n) []"
        by (simp add: node_links_def extractFromHtml_html_links)
      have "extractLinksFromPayload_node new_URL ?n = links_loop new_URL pl ?l0"
        using Some by (simp add: Let_def)
      also have "\<dots> = ?add (concat (map (node_links new_URL) (concat (map nodes pl))))
                        (?add (node_links new_URL ?n) [])"
        using ih l0 by simp
      also have "\<dots> = ?add (concat (map (node_links new_URL) (nodes ?n))) []"
        using Some by simp
      finally show ?thesis .
    qed
  qed
next
  case (2 new_URL ls)
  then show ?case by simp
next
  case (3 new_URL part rest ls)
  show ?case
  proof
    assume a: "\<forall>c\<in>set (part # rest). (parts c \<noteq> None \<longrightarrow> is_multipart c) \<and> wf_parts c"
    let ?add = "fold (\<lambda>x l. set_add l x)"
    let ?l1 = "if is_leaf (js ''text/html'') part
               then extractFromHtml new_URL ls (leaf_text part) else ls"
    let ?l2 = "if is_multipart part
               then fold (\<lambda>link ls. set_add ls link) (extractLinksFromPayload_node new_URL part) ?l1
               else ?l1"
    have step: "?l2 = ?add (concat (map (node_links new_URL) (nodes part))) ls"
    proof (cases "is_multipart part")
      case True
      then have nh: "\<not> is_leaf (js ''text/html'') part" by (rule multipart_not_html)
      have "extractLinksFromPayload_node new_URL part
              = ?add (concat (map (node_links new_URL) (nodes part))) []"
        using 3(1)[OF refl True] a by simp
      then show ?thesis using True nh by (simp add: fold_set_add_merge)
    next
      case False
      then have "nodes part = [part]" using a by (simp add: nodes_no_parts)
      then show ?thesis using False by (simp add: node_links_def extractFromHtml_html_links)
    qed
    have "links_loop new_URL rest ?l2
            = ?add (concat (map (node_links new_URL) (concat (map nodes rest)))) ?l2"
      using 3(2)[OF refl refl] a by simp
    then show "links_loop new_URL (part # rest) ls
       = ?add (concat (map (node_links new_URL) (concat (map nodes (part # rest))))) ls"
      by (simp add: Let_def step del: fold_simps)
  qed
qed

lemma distinct_extractFromHtml: "distinct ls \<Longrightarrow> distinct (extractFromHtml new_URL ls html)"
  by (simp add: extractFromHtml_html_links distinct_fold_set_add)

lemma distinct_links_loop: "distinct ls \<Longrightarrow> distinct (links_loop new_URL pl ls)"
  by (induction pl arbitrary: ls) (auto simp: Let_def distinct_extractFromHtml distinct_fold_set_add)

lemma distinct_links_node: "distinct (extractLinksFromPayload_node new_URL n)"
  by (cases n) (auto simp: Let_def distinct_extractFromHtml distinct_links_loop split: option.splits)

lemma param_loop_None:
  "\<not> list_ex (holds_destination parsed) ps \<Longrightarrow> param_loop parsed ps = None"
  by (induction ps) (auto simp: holds_destination_def split: option.splits)


lemma param_loop_searchParams:
  "searchParams p = searchParams q \<Longrightarrow> param_loop p ps = param_loop q ps"
  by (induction ps) (auto simp: searchParams_get_def split: option.splits)


text \<open>
  C8. A URL that the constructor rejects gives \<open>null\<close> and adds nothing to the links. A
  URL that parses and has no http(s) destination among the six parameters is returned as it
  is. The result depends on the parsed URL through its query parameters only: host and
  path, which are all the classification \<open>isTrackingOnly\<close> looks at, have no effect.
\<close>

theorem cleanTrackingUrl_without_destination:
  "(new_URL url = None \<longrightarrow> cleanTrackingUrl new_URL url = None \<and> href_step new_URL url ls = ls) \<and>
   (new_URL url = Some parsed \<and> \<not> list_ex (holds_destination parsed) tracking_params
      \<longrightarrow> cleanTrackingUrl new_URL url = Some url) \<and>
   (new_URL url = Some parsed \<and> other_URL url = Some other
      \<and> searchParams parsed = searchParams other
      \<longrightarrow> cleanTrackingUrl new_URL url = cleanTrackingUrl other_URL url)"
proof (intro conjI impI)
  show "cleanTrackingUrl new_URL url = None" if "new_URL url = None"
    using that by (simp add: cleanTrackingUrl_def)
  show "href_step new_URL url ls = ls" if "new_URL url = None"
    using that by (simp add: cleanTrackingUrl_def href_step_def)
  show "cleanTrackingUrl new_URL url = Some url"
    if "new_URL url = Some parsed \<and> \<not> list_ex (holds_destination parsed) tracking_params"
    using that by (simp add: cleanTrackingUrl_def param_loop_None Let_def)
  show "cleanTrackingUrl new_URL url = cleanTrackingUrl other_URL url"
    if "new_URL url = Some parsed \<and> other_URL url = Some other
      \<and> searchParams parsed = searchParams other"
    using that param_loop_searchParams[of parsed other tracking_params]
    by (simp add: cleanTrackingUrl_def Let_def split: option.splits)
qed


text \<open>
  C6. The list of links never repeats an entry. In a tree of the promised shape it is
  the list of the links of all HTML leaves in document order, a node before its parts,
  each link kept at its first occurrence; plain-text parts play no role.
\<close>

theorem extractLinksFromPayload_unique_document_order:
  "distinct (extractLinksFromPayload new_URL (Some t)) \<and>
   (wf_parts t \<longrightarrow>
      extractLinksFromPayload new_URL (Some t)
        = rev (remdups (rev (concat (map (node_links new_URL) (nodes t))))))"
  using links_are_tree_links(1)[of t new_URL] distinct_links_node[of new_URL t]
  by (simp add: extractLinksFromPayload_def fold_set_add_first_occurrences)

text \<open>
  C10. For a payload that is a single \<open>text/html\<close> leaf with data and no parts
  (\<open>parts\<close> absent or empty), the light message has the links of that HTML and an empty
  body.
\<close>

theorem getMessageLight_root_html:
  "d \<noteq> [] \<Longrightarrow> ps = None \<or> ps = Some [] \<Longrightarrow>
   getMessageLight new_URL (Some (MimeNode (Some (js ''text/html'')) (Some d) ps))
     = \<lparr>body = [], links = extractFromHtml new_URL [] (decode_body d)\<rparr>"
  by (auto simp: getMessageLight_def extractLinksFromPayload_def extractPlainTextBody_def
      is_leaf_def leaf_text_def js_def)

lemma tracking_example_html:
  "decode_body (js ''PGEgaHJlZj0iaHR0cHM6Ly9jbGlja3MuZXhhbXBsZS5jb20veD91PWh0dHBzJTNBJTJGJTJGcmVhbC5leGFtcGxlLmNvbSUyRnBhZ2UiPmdvPC9hPg=='')
     = js ''<a href='' @ [34]
       @ js ''https://clicks.example.com/x?u=https%3A%2F%2Freal.example.com%2Fpage'' @ [34]
       @ js ''>go</a>''"
  by code_simp



theorem cleanTrackingUrl_without_destination_witness:
  "simple_URL (js ''https://bad host/'') = None \<and>
   cleanTrackingUrl simple_URL (js ''https://bad host/'') = None \<and>
   href_step simple_URL (js ''https://bad host/'') [] = [] \<and>
   simple_URL (js ''https://click.example.com/a?id=5&u=ftp://x'') \<noteq> None \<and>
   \<not> list_ex (holds_destination (the (simple_URL (js ''https://click.example.com/a?id=5&u=ftp://x''))))
       tracking_params \<and>
   isTrackingOnly (the (simple_URL (js ''https://click.example.com/a?id=5&u=ftp://x''))) \<and>
   cleanTrackingUrl simple_URL (js ''https://click.example.com/a?id=5&u=ftp://x'')
     = Some (js ''https://click.example.com/a?id=5&u=ftp://x'') \<and>
   cleanTrackingUrl
     (\<lambda>u. map_option (\<lambda>p. p\<lparr>hostname := js ''example.com'', pathname := js ''/''\<rparr>) (simple_URL u))
     (js ''https://click.example.com/a?id=5&u=ftp://x'')
     = Some (js ''https://click.example.com/a?id=5&u=ftp://x'')"
proof -
  let ?b = "js ''https://bad host/''"
  let ?u = "js ''https://click.example.com/a?id=5&u=ftp://x''"
  let ?other = "\<lambda>u. map_option (\<lambda>p. p\<lparr>hostname := js ''example.com'', pathname := js ''/''\<rparr>)
                       (simple_URL u)"
  have b: "simple_URL ?b = None" by code_simp
  have p: "simple_URL ?u \<noteq> None" by code_simp
  then have p': "simple_URL ?u = Some (the (simple_URL ?u))" by simp
  have n: "\<not> list_ex (holds_destination (the (simple_URL ?u))) tracking_params" by code_simp
  have t: "isTrackingOnly (the (simple_URL ?u))" by code_simp
  have o: "?other ?u
             = Some ((the (simple_URL ?u))\<lparr>hostname := js ''example.com'', pathname := js ''/''\<rparr>)"
    using p' by (metis option.simps(9))
  have q: "searchParams (the (simple_URL ?u))
             = searchParams ((the (simple_URL ?u))\<lparr>hostname := js ''example.com'', pathname := js ''/''\<rparr>)"
    by simp
  have c: "cleanTrackingUrl simple_URL ?u = Some ?u"
    using cleanTrackingUrl_without_destination[where new_URL = simple_URL and url = ?u
        and parsed = "the (simple_URL ?u)"] p' n by blast
  have e: "cleanTrackingUrl simple_URL ?u = cleanTrackingUrl ?other ?u"
    using cleanTrackingUrl_without_destination[where new_URL = simple_URL and url = ?u
        and parsed = "the (simple_URL ?u)" and other_URL = ?other
        and other = "(the (simple_URL ?u))\<lparr>hostname := js ''example.com'', pathname := js ''/''\<rparr>"]
      p' o q by blast
  have f: "cleanTrackingUrl simple_URL ?b = None \<and> href_step simple_URL ?b [] = []"
    using cleanTrackingUrl_without_destination[where new_URL = simple_URL and url = ?b
        and ls = "[]"] b by blast
  show ?thesis using b f p n t c e by simp
qed

theorem extractLinksFromPayload_unique_document_order_witness:
  "wf_parts (MimeNode (Some (js ''multipart/mixed'')) None (Some
      [MimeNode (Some (js ''text/plain'')) (Some (js ''cGxhaW4='')) None,
       MimeNode (Some (js ''text/html'')) (Some (js ''PGEgaHJlZj0iaHR0cHM6Ly9leGFtcGxlLmNvbS9hIj5hPC9hPg=='')) None,
       MimeNode (Some (js ''multipart/related'')) None (Some
         [MimeNode (Some (js ''text/html'')) (Some (js ''PGEgaHJlZj0iaHR0cHM6Ly9leGFtcGxlLmNvbS9iIj5iPC9hPiA8YSBocmVmPSJodHRwczovL2V4YW1wbGUuY29tL2EiPmE8L2E-'')) None])])) \<and>
   extractLinksFromPayload simple_URL (Some (MimeNode (Some (js ''multipart/mixed'')) None (Some
      [MimeNode (Some (js ''text/plain'')) (Some (js ''cGxhaW4='')) None,
       MimeNode (Some (js ''text/html'')) (Some (js ''PGEgaHJlZj0iaHR0cHM6Ly9leGFtcGxlLmNvbS9hIj5hPC9hPg=='')) None,
       MimeNode (Some (js ''multipart/related'')) None (Some
         [MimeNode (Some (js ''text/html'')) (Some (js ''PGEgaHJlZj0iaHR0cHM6Ly9leGFtcGxlLmNvbS9iIj5iPC9hPiA8YSBocmVmPSJodHRwczovL2V4YW1wbGUuY29tL2EiPmE8L2E-'')) None])])))
     = [js ''https://example.com/a'', js ''https://example.com/b'']"
proof -
  let ?t = "MimeNode (Some (js ''multipart/mixed'')) None (Some
      [MimeNode (Some (js ''text/plain'')) (Some (js ''cGxhaW4='')) None,
       MimeNode (Some (js ''text/html'')) (Some (js ''PGEgaHJlZj0iaHR0cHM6Ly9leGFtcGxlLmNvbS9hIj5hPC9hPg=='')) None,
       MimeNode (Some (js ''multipart/related'')) None (Some
         [MimeNode (Some (js ''text/html'')) (Some (js ''PGEgaHJlZj0iaHR0cHM6Ly9leGFtcGxlLmNvbS9iIj5iPC9hPiA8YSBocmVmPSJodHRwczovL2V4YW1wbGUuY29tL2EiPmE8L2E-'')) None])])"
  have w: "wf_parts ?t" by code_simp
  have v: "rev (remdups (rev (concat (map (node_links simple_URL) (nodes ?t)))))
             = [js ''https://example.com/a'', js ''https://example.com/b'']"
    by code_simp
  show ?thesis
    using extractLinksFromPayload_unique_document_order[of simple_URL ?t] w v by simp
qed

theorem getMessageLight_root_html_witness:
  "js ''PGEgaHJlZj0iaHR0cHM6Ly9leGFtcGxlLmNvbS9hIj5hPC9hPg=='' \<noteq> [] \<and>
   getMessageLight simple_URL (Some (MimeNode (Some (js ''text/html''))
      (Some (js ''PGEgaHJlZj0iaHR0cHM6Ly9leGFtcGxlLmNvbS9hIj5hPC9hPg=='')) None))
     = \<lparr>body = [], links = [js ''https://example.com/a'']\<rparr>"
proof -
  let ?d = "js ''PGEgaHJlZj0iaHR0cHM6Ly9leGFtcGxlLmNvbS9hIj5hPC9hPg==''"
  have d: "?d \<noteq> []" by code_simp
  have l: "extractFromHtml simple_URL [] (decode_body ?d) = [js ''https://example.com/a'']"
    by code_simp
  have p: "None = None \<or> None = Some ([] :: MimeNode list)" by simp
  show ?thesis using getMessageLight_root_html[OF d p, of simple_URL] d l by simp
qed

section \<open>Properties of extraction on an untyped payload\<close>

lemma html_loop_any_cons:
  "html_loop_any (as_any part # rest) =
     (if is_leaf (js ''text/html'') part then Inr (Some (html_to_text (leaf_text part)))
      else html_loop_any rest)"
  by (cases part) (simp add: is_leaf_def leaf_text_def)

lemma plain_loop_any_cons:
  "plain_loop_any (as_any part # rest) =
     (if is_leaf (js ''text/plain'') part then Inr (Some (leaf_text part))
      else if is_multipart part then
        (case extractPlainTextBody_any (as_any part) of
           Inl e \<Rightarrow> Inl e
         | Inr nested \<Rightarrow> (if nested \<noteq> [] then Inr (Some nested) else plain_loop_any rest))
      else plain_loop_any rest)"
  by (cases part) (simp add: is_leaf_def leaf_text_def is_multipart_def)

lemma extractPlainTextBody_any_node:
  "extractPlainTextBody_any (as_any n) =
     (if is_leaf (js ''text/plain'') n then Inr (leaf_text n)
      else (case parts n of
              None \<Rightarrow> Inr []
            | Some pl \<Rightarrow>
                (case plain_loop_any (map as_any pl) of
                   Inl e \<Rightarrow> Inl e
                 | Inr (Some r) \<Rightarrow> Inr r
                 | Inr None \<Rightarrow>
                     (case html_loop_any (map as_any pl) of
                        Inl e \<Rightarrow> Inl e
                      | Inr (Some r) \<Rightarrow> Inr r
                      | Inr None \<Rightarrow> Inr []))))"
  by (cases n) (simp add: is_leaf_def leaf_text_def split: option.splits)

lemma links_loop_any_cons:
  "links_loop_any new_URL (as_any part # rest) found =
     (let found1 = (if is_leaf (js ''text/html'') part
                    then extractFromHtml new_URL found (leaf_text part) else found)
      in if is_multipart part then
           (case extractLinksFromPayload_any new_URL (as_any part) of
              Inl e \<Rightarrow> Inl e
            | Inr nested \<Rightarrow>
                links_loop_any new_URL rest (fold (\<lambda>link ls. set_add ls link) nested found1))
         else links_loop_any new_URL rest found1)"
  by (cases part)
    (auto simp: is_leaf_def leaf_text_def is_multipart_def Let_def startsWith_def js_def
      simp del: extractLinksFromPayload_any.simps)

lemma extractLinksFromPayload_any_node:
  "extractLinksFromPayload_any new_URL (as_any n) =
     (let found = (if is_leaf (js ''text/html'') n
                   then extractFromHtml new_URL [] (leaf_text n) else [])
      in (case parts n of None \<Rightarrow> Inr found
          | Some pl \<Rightarrow> links_loop_any new_URL (map as_any pl) found))"
  by (cases n) (auto simp: is_leaf_def leaf_text_def Let_def split: option.splits)

lemma html_loop_as_any: "html_loop_any (map as_any pl) = Inr (html_loop pl)"
  by (induction pl) (simp_all add: html_loop_any_cons del: as_any.simps)

lemma plain_as_any:
  "extractPlainTextBody_any (as_any n) = Inr (extractPlainTextBody_node n)"
  "plain_loop_any (map as_any pl) = Inr (plain_loop pl)"
proof (induction n and pl rule: extractPlainTextBody_node_plain_loop.induct)
  case (1 mt bd ps)
  let ?n = "MimeNode mt bd ps"
  show ?case
  proof (cases "is_leaf (js ''text/plain'') ?n")
    case True
    then show ?thesis by (simp add: extractPlainTextBody_any_node del: as_any.simps)
  next
    case False
    show ?thesis
    proof (cases ps)
      case None
      then show ?thesis using False by (simp add: extractPlainTextBody_any_node del: as_any.simps)
    next
      case (Some pl)
      have "plain_loop_any (map as_any pl) = Inr (plain_loop pl)" using 1[OF False Some] .
      then show ?thesis
        using False Some
        by (simp add: extractPlainTextBody_any_node html_loop_as_any del: as_any.simps
            split: option.splits)
    qed
  qed
next
  case 2
  then show ?case by simp
next
  case (3 part rest)
  show ?case
  proof (cases "is_leaf (js ''text/plain'') part")
    case True
    then show ?thesis by (simp add: plain_loop_any_cons del: as_any.simps)
  next
    case np: False
    show ?thesis
    proof (cases "is_multipart part")
      case True
      have n: "extractPlainTextBody_any (as_any part) = Inr (extractPlainTextBody_node part)"
        using 3(1)[OF np True] .
      show ?thesis
      proof (cases "extractPlainTextBody_node part = []")
        case e: True
        have "plain_loop_any (map as_any rest) = Inr (plain_loop rest)"
          using 3(2)[OF np True refl] e by simp
        then show ?thesis
          using np True n e by (simp add: plain_loop_any_cons Let_def del: as_any.simps)
      next
        case False
        then show ?thesis
          using np True n by (simp add: plain_loop_any_cons Let_def del: as_any.simps)
      qed
    next
      case False
      have "plain_loop_any (map as_any rest) = Inr (plain_loop rest)" using 3(3)[OF np False] .
      then show ?thesis using np False by (simp add: plain_loop_any_cons del: as_any.simps)
    qed
  qed
qed

lemma links_as_any:
  "extractLinksFromPayload_any new_URL (as_any n) = Inr (extractLinksFromPayload_node new_URL n)"
  "links_loop_any new_URL (map as_any pl) ls = Inr (links_loop new_URL pl ls)"
proof (induction new_URL n and new_URL pl ls rule: extractLinksFromPayload_node_links_loop.induct)
  case (1 new_URL mt bd ps)
  let ?n = "MimeNode mt bd ps"
  let ?l0 = "if is_leaf (js ''text/html'') ?n
             then extractFromHtml new_URL [] (leaf_text ?n) else []"
  show ?case
  proof (cases ps)
    case None
    then show ?thesis
      by (simp add: extractLinksFromPayload_any_node Let_def del: as_any.simps)
  next
    case (Some pl)
    have ih: "links_loop_any new_URL (map as_any pl) ?l0 = Inr (links_loop new_URL pl ?l0)"
      using 1[OF refl Some] .
    have "extractLinksFromPayload_any new_URL (as_any ?n)
            = links_loop_any new_URL (map as_any pl) ?l0"
      using Some by (simp add: extractLinksFromPayload_any_node Let_def del: as_any.simps)
    moreover have "extractLinksFromPayload_node new_URL ?n = links_loop new_URL pl ?l0"
      using Some by (simp add: Let_def)
    ultimately show ?thesis using ih by simp
  qed
next
  case (2 new_URL ls)
  then show ?case by simp
next
  case (3 new_URL part rest ls)
  let ?l1 = "if is_leaf (js ''text/html'') part
             then extractFromHtml new_URL ls (leaf_text part) else ls"
  let ?l2 = "if is_multipart part
             then fold (\<lambda>link ls. set_add ls link) (extractLinksFromPayload_node new_URL part) ?l1
             else ?l1"
  have r: "links_loop_any new_URL (map as_any rest) ?l2 = Inr (links_loop new_URL rest ?l2)"
    using 3(2)[OF refl refl] .
  have t: "links_loop new_URL (part # rest) ls = links_loop new_URL rest ?l2"
    by (simp add: Let_def)
  have "links_loop_any new_URL (as_any part # map as_any rest) ls
          = links_loop_any new_URL (map as_any rest) ?l2"
  proof (cases "is_multipart part")
    case True
    have "extractLinksFromPayload_any new_URL (as_any part)
               = Inr (extractLinksFromPayload_node new_URL part)"
      using 3(1)[OF refl True] .
    then show ?thesis using True by (simp add: links_loop_any_cons Let_def del: as_any.simps)
  next
    case False
    then show ?thesis by (simp add: links_loop_any_cons Let_def del: as_any.simps)
  qed
  then show ?case using r t by (simp del: as_any.simps links_loop.simps)
qed

text \<open>
  C7, amended. On every payload that is null or has the shape of a \<open>MimeNode\<close>, whatever
  its types, missing fields and nesting, both extraction functions return normally, with
  the results of the typed functions; on a null payload these are the empty string and the
  empty list.
\<close>

theorem extraction_total_on_typed_payload:
  "extractPlainTextBody_any (payload_as_any payload) = Inr (extractPlainTextBody payload) \<and>
   extractLinksFromPayload_any new_URL (payload_as_any payload)
     = Inr (extractLinksFromPayload new_URL payload) \<and>
   extractPlainTextBody_any (payload_as_any None) = Inr [] \<and>
   extractLinksFromPayload_any new_URL (payload_as_any None) = Inr []"
  by (cases payload)
    (simp_all add: payload_as_any_def extractPlainTextBody_def extractLinksFromPayload_def
      plain_as_any(1) links_as_any(1) del: as_any.simps)

text \<open>
  C7, as stated for every payload, fails: when an element of \<open>parts\<close> is null, reading
  \<open>part.mimeType\<close> throws in both functions.
\<close>

theorem extraction_null_part_counterexample:
  "extractPlainTextBody_any (Object (Some (js ''multipart/mixed'')) None (Some [Nullish]))
     = Inl TypeError \<and>
   extractLinksFromPayload_any simple_URL
     (Object (Some (js ''multipart/mixed'')) None (Some [Nullish])) = Inl TypeError"
  by code_simp

theorem extraction_total_on_typed_payload_witness:
  "extractPlainTextBody_any
     (Object (Some (js ''multipart/mixed'')) None (Some
        [Object (Some (js ''image/png'')) None None,
         Object None (Some (js ''cGxhaW4='')) (Some []),
         Object (Some (js ''text/html'')) (Some (js ''PGI-aDwvYj4='')) None]))
     = Inr (js ''h'') \<and>
   extractLinksFromPayload_any simple_URL
     (Object (Some (js ''multipart/mixed'')) None (Some
        [Object (Some (js ''image/png'')) None None,
         Object None (Some (js ''cGxhaW4='')) (Some []),
         Object (Some (js ''text/html'')) (Some (js ''PGI-aDwvYj4='')) None]))
     = Inr []"
proof -
  let ?t = "MimeNode (Some (js ''multipart/mixed'')) None (Some
        [MimeNode (Some (js ''image/png'')) None None,
         MimeNode None (Some (js ''cGxhaW4='')) (Some []),
         MimeNode (Some (js ''text/html'')) (Some (js ''PGI-aDwvYj4='')) None])"
  have a: "payload_as_any (Some ?t) =
     Object (Some (js ''multipart/mixed'')) None (Some
        [Object (Some (js ''image/png'')) None None,
         Object None (Some (js ''cGxhaW4='')) (Some []),
         Object (Some (js ''text/html'')) (Some (js ''PGI-aDwvYj4='')) None])"
    by (simp add: payload_as_any_def)
  have b: "extractPlainTextBody (Some ?t) = js ''h''" by code_simp
  have c: "extractLinksFromPayload simple_URL (Some ?t) = []" by code_simp
  show ?thesis
    using extraction_total_on_typed_payload[of "Some ?t" simple_URL] a b c by simp
qed

section \<open>Properties of the account tools\<close>

text \<open>
  C9, as stated, fails: for an address that has a record the handler answers with an
  ordinary result, not an error. Here the store holds \<open>a@x.org\<close>.
\<close>

theorem add_account_existing_counterexample:
  "accountExists
     \<lparr>accounts = [(js ''a@x.org'', \<lparr>credential = js ''t'', addedAt = 1, lastUsed = 2\<rparr>)],
      defaultAccount = None\<rparr> (js ''a@x.org'') \<and>
   \<not> isError (fst (add_account (\<lambda>e. js ''failed'') (\<lambda>a. Inr (js ''c'')) 3
     \<lparr>accounts = [(js ''a@x.org'', \<lparr>credential = js ''t'', addedAt = 1, lastUsed = 2\<rparr>)],
      defaultAccount = None\<rparr> (js ''a@x.org'')))"
  by code_simp

text \<open>
  C9, amended. For an address that has a record, the handler answers with the ordinary
  text \<open>Account ... already exists.\<close>, does not flag an error, and leaves the store as it
  was: the account manager's \<open>add\<close> is not called.
\<close>

theorem add_account_existing:
  "accountExists store email \<Longrightarrow>
   add_account describe authorize now store email
     = (\<lparr>content_text = js ''Account '' @ email @ js '' already exists.'', isError = False\<rparr>, store)"
  by (simp add: add_account_def)

theorem add_account_existing_witness:
  "accountExists
     \<lparr>accounts = [(js ''a@x.org'', \<lparr>credential = js ''t'', addedAt = 1, lastUsed = 2\<rparr>)],
      defaultAccount = None\<rparr> (js ''a@x.org'') \<and>
   add_account (\<lambda>e. js ''failed'') (\<lambda>a. Inr (js ''c'')) 3
     \<lparr>accounts = [(js ''a@x.org'', \<lparr>credential = js ''t'', addedAt = 1, lastUsed = 2\<rparr>)],
      defaultAccount = None\<rparr> (js ''a@x.org'')
     = (\<lparr>content_text = js ''Account a@x.org already exists.'', isError = False\<rparr>,
        \<lparr>accounts = [(js ''a@x.org'', \<lparr>credential = js ''t'', addedAt = 1, lastUsed = 2\<rparr>)],
         defaultAccount = None\<rparr>)"
proof -
  let ?s = "\<lparr>accounts = [(js ''a@x.org'', \<lparr>credential = js ''t'', addedAt = 1, lastUsed = 2\<rparr>)],
      defaultAccount = None\<rparr>"
  have e: "accountExists ?s (js ''a@x.org'')" by code_simp
  have t: "js ''Account '' @ js ''a@x.org'' @ js '' already exists.'' = js ''Account a@x.org already exists.''"
    by (simp add: js_def)
  show ?thesis using add_account_existing[OF e, of "\<lambda>e. js ''failed''" "\<lambda>a. Inr (js ''c'')" 3] e t by simp
qed

end
